theory Spec2Isabelle
  imports Complex_Main
begin

section \<open>Python strings\<close>

text \<open>
  A Python \<open>str\<close> is a sequence of Unicode code points; it is modelled as a list of
  natural numbers. \<open>str\<close> turns an Isabelle literal into such a list, so the tables of the
  source can be written as they stand there.

  The library functions below follow CPython 3.11's \<open>str\<close> methods, \<open>re\<close> and
  \<open>urllib.parse\<close>. They are exact on ASCII text whose authority has no square bracket.
  Elsewhere they are approximations, and the theorems that depend on them say so in their
  hypotheses: \<open>lower\<close> leaves non-ASCII letters unchanged, \<open>isdigit\<close> knows the digits below
  U+0300 only, the pattern class \<open>\d\<close> is taken as the ASCII digits, and \<open>urlsplit\<close>'s
  NFKC check of a non-ASCII authority and its validation of a bracketed host (interpreters
  from 3.11.4 on) are left out.
\<close>

type_synonym pystr = "nat list"

definition str :: "string \<Rightarrow> pystr" where
  "str s = map of_char s"

definition is_ascii :: "nat \<Rightarrow> bool" where
  "is_ascii c = (c < 128)"

definition isspace :: "nat \<Rightarrow> bool" where
  "isspace c = ((9 \<le> c \<and> c \<le> 13) \<or> (28 \<le> c \<and> c \<le> 32) \<or> c = 133 \<or> c = 160 \<or> c = 5760
     \<or> (8192 \<le> c \<and> c \<le> 8202) \<or> c = 8232 \<or> c = 8233 \<or> c = 8239 \<or> c = 8287 \<or> c = 12288)"

definition strip :: "pystr \<Rightarrow> pystr" where
  "strip s = rev (dropWhile isspace (rev (dropWhile isspace s)))"

definition rstrip_char :: "nat \<Rightarrow> pystr \<Rightarrow> pystr" where
  "rstrip_char c s = rev (dropWhile (\<lambda>x. x = c) (rev s))"

definition startswith :: "pystr \<Rightarrow> pystr \<Rightarrow> bool" where
  "startswith s p = (take (length p) s = p)"

definition endswith :: "pystr \<Rightarrow> pystr \<Rightarrow> bool" where
  "endswith s p = (length p \<le> length s \<and> drop (length s - length p) s = p)"

definition lower_char :: "nat \<Rightarrow> nat" where
  "lower_char c = (if 65 \<le> c \<and> c \<le> 90 then c + 32 else c)"

definition lower :: "pystr \<Rightarrow> pystr" where
  "lower s = map lower_char s"

definition isdigit :: "nat \<Rightarrow> bool" where
  "isdigit c = ((48 \<le> c \<and> c \<le> 57) \<or> c = 178 \<or> c = 179 \<or> c = 185)"

definition is_ascii_digit :: "nat \<Rightarrow> bool" where
  "is_ascii_digit c = (48 \<le> c \<and> c \<le> 57)"

definition is_ascii_alpha :: "nat \<Rightarrow> bool" where
  "is_ascii_alpha c = ((65 \<le> c \<and> c \<le> 90) \<or> (97 \<le> c \<and> c \<le> 122))"

definition is_hex :: "nat \<Rightarrow> bool" where
  "is_hex c = (is_ascii_digit c \<or> (97 \<le> c \<and> c \<le> 102) \<or> (65 \<le> c \<and> c \<le> 70))"

definition hexval :: "nat \<Rightarrow> nat" where
  "hexval c = (if is_ascii_digit c then c - 48 else if 97 \<le> c then c - 87 else c - 55)"

text \<open>\<open>sub in s\<close>: the substring test.\<close>

fun contains :: "pystr \<Rightarrow> pystr \<Rightarrow> bool" where
  "contains [] sub = (sub = [])"
| "contains (c # cs) sub = (take (length sub) (c # cs) = sub \<or> contains cs sub)"

text \<open>\<open>s.split(c)\<close> for a one-character separator.\<close>

fun split_on :: "nat \<Rightarrow> pystr \<Rightarrow> pystr list" where
  "split_on sep [] = [[]]"
| "split_on sep (c # cs) =
     (case split_on sep cs of
        [] \<Rightarrow> [[c]]
      | w # ws \<Rightarrow> if c = sep then [] # w # ws else (c # w) # ws)"

text \<open>\<open>str(n)\<close> and \<open>int(s)\<close> for a non-negative integer in decimal.\<close>

fun str_of_nat :: "nat \<Rightarrow> pystr" where
  "str_of_nat n = (if n < 10 then [48 + n] else str_of_nat (n div 10) @ [48 + n mod 10])"

definition int_of_str :: "pystr \<Rightarrow> nat" where
  "int_of_str s = foldl (\<lambda>a c. 10 * a + (c - 48)) 0 s"

text \<open>
  Python's \<open>round(x, nd)\<close>: to the nearest multiple of \<open>10 ^ -nd\<close>, a tie to the even one.
  Scores are floats in the source and real numbers here; where the exact value is a tie or
  next to one, the float of the source may round to the other side.
\<close>

definition py_round :: "real \<Rightarrow> nat \<Rightarrow> real" where
  "py_round x nd =
     (let y = x * 10 ^ nd; f = \<lfloor>y\<rfloor>; d = y - of_int f
      in of_int (if d < 1 / 2 then f else if 1 / 2 < d then f + 1
                 else if even f then f else f + 1) / 10 ^ nd)"

section \<open>The result contract\<close>

datatype classification = Safe | Suspicious | Phishing | Error

datatype py_exception =
    ValueError
  | TypeError
  | AttributeError
  | RuntimeError_not_configured
  | RuntimeError_network
  | RuntimeError_invalid_key
  | RuntimeError_rate_limit
  | RuntimeError_submission_failed nat
  | RuntimeError_unexpected_response
  | RuntimeError_timed_out
  | Collaborator_failure

text \<open>
  A reasoning line is kept as the values the source formats into its text, one constructor
  per message.
\<close>

datatype reason =
    Long_domain nat real
  | High_entropy real real
  | Multiple_hyphens nat real
  | Suspicious_keywords "pystr list" real
  | High_risk_tld real
  | Raw_ip_address
  | Deep_subdomains int real
  | Homograph_chars "(nat \<times> pystr) list" real
  | Brand_spoofing "(pystr \<times> pystr option \<times> nat) list" real
  | No_https
  | Deep_path nat real
  | At_sign
  | High_digit_ratio real real
  | No_indicators
  | Vt_detection int int int
  | Vt_ratio real
  | Vt_harmless int int
  | Ml_reasoning
  | Exception_text py_exception

datatype engine = Heuristic_engine | Virustotal_api int | Ml_random_forest | Engine_na

text \<open>The \<open>features\<close> dictionary of the heuristic scorer, one field per key.\<close>

record feature_values =
  f_domain_length :: nat
  f_entropy :: real
  f_hyphen_count :: nat
  f_suspicious_keywords :: "pystr list"
  f_tld_risk :: real
  f_is_ip_address :: bool
  f_subdomain_depth :: int
  f_homograph_chars :: "(nat \<times> pystr) list"
  f_brand_spoofing :: "(pystr \<times> pystr option \<times> nat) list"
  f_uses_https :: bool
  f_path_depth :: nat
  f_has_at_sign :: bool
  f_digit_ratio :: real

datatype features_entry = No_features_key | Empty_features | Features feature_values

type_synonym stats = "string \<Rightarrow> int option"

text \<open>
  The result dictionaries. A key that an engine does not set is \<open>None\<close>
  (\<open>api_used\<close>, \<open>raw_stats\<close>) or \<open>No_features_key\<close>.
\<close>

record result =
  risk_score :: real
  classification :: classification
  confidence :: real
  reasoning :: "reason list"
  engine :: engine
  features :: features_entry
  api_used :: "bool option"
  raw_stats :: "stats option"

section \<open>\<open>urllib.parse\<close>\<close>

text \<open>
  \<open>urlparse\<close> raises \<open>ValueError\<close> when the authority has an opening square bracket without
  a closing one or the reverse; its \<open>port\<close> property raises \<open>ValueError\<close> when the port is
  not a string of ASCII digits or is above 65535.
\<close>

record parse_result =
  scheme :: pystr
  netloc :: pystr
  path :: pystr
  params :: pystr
  query :: pystr
  fragment :: pystr

definition is_scheme_char :: "nat \<Rightarrow> bool" where
  "is_scheme_char c = (is_ascii_alpha c \<or> is_ascii_digit c \<or> c = 43 \<or> c = 45 \<or> c = 46)"

definition uses_params :: "pystr list" where
  "uses_params = map str ['''', ''ftp'', ''hdl'', ''prospero'', ''http'', ''imap'', ''https'',
     ''shttp'', ''rtsp'', ''rtsps'', ''rtspu'', ''sip'', ''sips'', ''mms'', ''sftp'', ''tel'']"

text \<open>\<open>s.partition(c)\<close>: the text before the first \<open>c\<close> and the text after it.\<close>

definition before :: "nat \<Rightarrow> pystr \<Rightarrow> pystr" where
  "before c s = takeWhile (\<lambda>x. x \<noteq> c) s"

definition after :: "nat \<Rightarrow> pystr \<Rightarrow> pystr" where
  "after c s = drop 1 (dropWhile (\<lambda>x. x \<noteq> c) s)"

definition split_scheme :: "pystr \<Rightarrow> pystr \<times> pystr" where
  "split_scheme url =
     (let pre = before 58 url
      in if 58 \<in> set url \<and> pre \<noteq> [] \<and> is_ascii_alpha (hd pre) \<and> list_all is_scheme_char pre
         then (lower pre, after 58 url) else ([], url))"

definition is_netloc_delim :: "nat \<Rightarrow> bool" where
  "is_netloc_delim c = (c = 47 \<or> c = 63 \<or> c = 35)"

definition splitnetloc :: "pystr \<Rightarrow> pystr \<times> pystr" where
  "splitnetloc url = (takeWhile (\<lambda>c. \<not> is_netloc_delim c) url, dropWhile (\<lambda>c. \<not> is_netloc_delim c) url)"

definition splitparams :: "pystr \<Rightarrow> pystr \<times> pystr" where
  "splitparams url =
     (if 47 \<in> set url
      then (let tl_seg = rev (takeWhile (\<lambda>c. c \<noteq> 47) (rev url));
                hd_part = take (length url - length tl_seg) url
            in if 59 \<in> set tl_seg then (hd_part @ before 59 tl_seg, after 59 tl_seg) else (url, []))
      else (before 59 url, after 59 url))"

text \<open>
  What \<open>urlsplit\<close> and \<open>urlparse\<close> do once the scheme and the authority are cut off:
  the bracket check, then the fragment, the query and the parameters.
\<close>

definition split_rest :: "pystr \<Rightarrow> pystr \<Rightarrow> pystr \<Rightarrow> py_exception + parse_result" where
  "split_rest sch nl url3 =
     (if (91 \<in> set nl \<and> 93 \<notin> set nl) \<or> (93 \<in> set nl \<and> 91 \<notin> set nl) then Inl ValueError
      else
        (let (url4, frag) = (if 35 \<in> set url3 then (before 35 url3, after 35 url3) else (url3, []));
             (url5, qu) = (if 63 \<in> set url4 then (before 63 url4, after 63 url4) else (url4, []));
             (url6, pa) = (if sch \<in> set uses_params \<and> 59 \<in> set url5 then splitparams url5 else (url5, []))
         in Inr \<lparr> scheme = sch, netloc = nl, path = url6, params = pa, query = qu, fragment = frag \<rparr>))"

definition unsafe_removed :: "pystr \<Rightarrow> pystr" where
  "unsafe_removed url = filter (\<lambda>c. c \<noteq> 9 \<and> c \<noteq> 13 \<and> c \<noteq> 10) url"

definition urlparse :: "pystr \<Rightarrow> py_exception + parse_result" where
  "urlparse url0 =
     (let url1 = unsafe_removed (dropWhile (\<lambda>c. c \<le> 32) url0);
          (sch, url2) = split_scheme url1;
          (nl, url3) = (if take 2 url2 = [47, 47] then splitnetloc (drop 2 url2) else ([], url2))
      in split_rest sch nl url3)"

definition hostinfo :: "pystr \<Rightarrow> pystr \<times> pystr" where
  "hostinfo nl =
     (let hi = rev (takeWhile (\<lambda>c. c \<noteq> 64) (rev nl))
      in if 91 \<in> set hi
         then (let bracketed = after 91 hi
               in (before 93 bracketed, after 58 (after 93 bracketed)))
         else (before 58 hi, after 58 hi))"

definition hostname :: "parse_result \<Rightarrow> pystr option" where
  "hostname p =
     (let h = fst (hostinfo (netloc p))
      in if h = [] then None else Some (lower (before 37 h) @ dropWhile (\<lambda>c. c \<noteq> 37) h))"

text \<open>
  \<open>int\<close> refuses a string of more than 4300 digits with \<open>ValueError\<close>, whatever its value.
\<close>

definition port :: "parse_result \<Rightarrow> py_exception + nat option" where
  "port p =
     (let s = snd (hostinfo (netloc p))
      in if s = [] then Inr None
         else if list_all is_ascii_digit s
         then (if length s \<le> 4300 \<and> int_of_str s \<le> 65535 then Inr (Some (int_of_str s))
               else Inl ValueError)
         else Inl ValueError)"

text \<open>\<open>unquote\<close>: percent-decoding of the ASCII runs, read back as UTF-8 with replacement.\<close>

fun unquote_to_bytes :: "pystr \<Rightarrow> nat list" where
  "unquote_to_bytes [] = []"
| "unquote_to_bytes (c # cs) =
     (if c = 37 then
        (case cs of
           h1 # h2 # rest \<Rightarrow>
             if is_hex h1 \<and> is_hex h2 then (16 * hexval h1 + hexval h2) # unquote_to_bytes rest
             else 37 # unquote_to_bytes cs
         | _ \<Rightarrow> 37 # unquote_to_bytes cs)
      else c # unquote_to_bytes cs)"

definition is_cont :: "nat \<Rightarrow> bool" where
  "is_cont b = (128 \<le> b \<and> b \<le> 191)"

definition second_lo :: "nat \<Rightarrow> nat" where
  "second_lo b = (if b = 224 then 160 else if b = 240 then 144 else 128)"

definition second_hi :: "nat \<Rightarrow> nat" where
  "second_hi b = (if b = 237 then 159 else if b = 244 then 143 else 191)"

fun utf8_decode :: "nat list \<Rightarrow> pystr" where
  "utf8_decode [] = []"
| "utf8_decode (b # bs) =
     (if b < 128 then b # utf8_decode bs
      else if 194 \<le> b \<and> b \<le> 223 then
        (case bs of
           [] \<Rightarrow> [65533]
         | c1 # r1 \<Rightarrow>
             if is_cont c1 then ((b - 192) * 64 + (c1 - 128)) # utf8_decode r1
             else 65533 # utf8_decode bs)
      else if 224 \<le> b \<and> b \<le> 239 then
        (case bs of
           [] \<Rightarrow> [65533]
         | c1 # r1 \<Rightarrow>
             if second_lo b \<le> c1 \<and> c1 \<le> second_hi b then
               (case r1 of
                  [] \<Rightarrow> [65533]
                | c2 # r2 \<Rightarrow>
                    if is_cont c2
                    then ((b - 224) * 4096 + (c1 - 128) * 64 + (c2 - 128)) # utf8_decode r2
                    else 65533 # utf8_decode r1)
             else 65533 # utf8_decode bs)
      else if 240 \<le> b \<and> b \<le> 244 then
        (case bs of
           [] \<Rightarrow> [65533]
         | c1 # r1 \<Rightarrow>
             if second_lo b \<le> c1 \<and> c1 \<le> second_hi b then
               (case r1 of
                  [] \<Rightarrow> [65533]
                | c2 # r2 \<Rightarrow>
                    if is_cont c2 then
                      (case r2 of
                         [] \<Rightarrow> [65533]
                       | c3 # r3 \<Rightarrow>
                           if is_cont c3
                           then ((b - 240) * 262144 + (c1 - 128) * 4096 + (c2 - 128) * 64 + (c3 - 128))
                                # utf8_decode r3
                           else 65533 # utf8_decode r2)
                    else 65533 # utf8_decode r1)
             else 65533 # utf8_decode bs)
      else 65533 # utf8_decode bs)"

fun unquote_runs :: "pystr \<Rightarrow> pystr \<Rightarrow> pystr" where
  "unquote_runs run [] = utf8_decode (unquote_to_bytes run)"
| "unquote_runs run (c # cs) =
     (if c < 128 then unquote_runs (run @ [c]) cs
      else utf8_decode (unquote_to_bytes run) @ c # unquote_runs [] cs)"

definition unquote :: "pystr \<Rightarrow> pystr" where
  "unquote s = (if 37 \<in> set s then unquote_runs [] s else s)"

section \<open>The reputation client: \<open>core/api_client.py\<close>\<close>

subsection \<open>\<open>_normalize_url\<close>\<close>

definition add_scheme :: "pystr \<Rightarrow> pystr" where
  "add_scheme url =
     (if startswith url (str ''http://'') \<or> startswith url (str ''https://'') then url
      else str ''http://'' @ url)"

definition normalize_url :: "pystr \<Rightarrow> py_exception + pystr" where
  "normalize_url url0 =
     (case urlparse (add_scheme (strip url0)) of
        Inl e \<Rightarrow> Inl e
      | Inr parsed \<Rightarrow>
          (let normalized = lower (scheme parsed) @ str ''://''
                 @ lower (case hostname parsed of None \<Rightarrow> [] | Some h \<Rightarrow> h)
           in case port parsed of
                Inl e \<Rightarrow> Inl e
              | Inr po \<Rightarrow>
                  Inr (normalized
                       @ (case po of
                            None \<Rightarrow> []
                          | Some n \<Rightarrow> if n \<noteq> 0 \<and> n \<noteq> 80 \<and> n \<noteq> 443 then 58 # str_of_nat n else [])
                       @ (if rstrip_char 47 (path parsed) = [] then [47] else rstrip_char 47 (path parsed))
                       @ (if query parsed \<noteq> [] then 63 # query parsed else []))))"

text \<open>
  The authority of the URL that \<open>_normalize_url\<close> parses, read off the input text: what
  stands between the scheme and the first of \<open>/\<close>, \<open>?\<close> and \<open>#\<close>. Its square brackets are
  balanced when it has both or neither; its port is fine when the text after the host's
  colon is empty or a decimal number of at most 65535 in at most 4300 digits.
\<close>

definition authority :: "pystr \<Rightarrow> pystr" where
  "authority u =
     (let v = add_scheme (strip u)
      in takeWhile (\<lambda>c. \<not> is_netloc_delim c)
           (unsafe_removed (drop (if startswith v (str ''https://'') then 8 else 7) v)))"

definition brackets_balanced :: "pystr \<Rightarrow> bool" where
  "brackets_balanced nl = ((91 \<in> set nl) = (93 \<in> set nl))"

definition port_ok :: "pystr \<Rightarrow> bool" where
  "port_ok nl =
     (list_all is_ascii_digit (snd (hostinfo nl)) \<and> length (snd (hostinfo nl)) \<le> 4300
      \<and> int_of_str (snd (hostinfo nl)) \<le> 65535)"

subsection \<open>\<open>_rate_limit_wait\<close>\<close>

text \<open>
  The state is the shared list \<open>_request_times\<close>. A call reads the clock twice: \<open>now\<close> on
  entry and \<open>stamp\<close> when it records the admission, after the sleep if it slept. Both
  readings are inputs of the model; \<open>clock_ok\<close> says that the clock does not run backwards
  and that a sleep lasts at least as long as asked. The lock makes the calls sequential.
\<close>

definition RATE_LIMIT :: nat where
  "RATE_LIMIT = 4"

definition RATE_WINDOW :: real where
  "RATE_WINDOW = 60"

definition prune :: "real list \<Rightarrow> real \<Rightarrow> real list" where
  "prune ts now = filter (\<lambda>t. now - t < RATE_WINDOW) ts"

definition sleep_time :: "real list \<Rightarrow> real \<Rightarrow> real option" where
  "sleep_time ts now =
     (if RATE_LIMIT \<le> length (prune ts now)
      then Some (RATE_WINDOW - (now - hd (prune ts now)) + 1 / 2) else None)"

definition slept :: "real list \<Rightarrow> real \<Rightarrow> real" where
  "slept ts now = (case sleep_time ts now of None \<Rightarrow> 0 | Some d \<Rightarrow> if 0 < d then d else 0)"

definition rate_limit_wait :: "real list \<Rightarrow> real \<Rightarrow> real \<Rightarrow> real list" where
  "rate_limit_wait ts now stamp = prune ts now @ [stamp]"

fun clock_ok :: "real \<Rightarrow> real list \<Rightarrow> (real \<times> real) list \<Rightarrow> bool" where
  "clock_ok prev ts [] = True"
| "clock_ok prev ts ((now, stamp) # rs) =
     (prev \<le> now \<and> now + slept ts now \<le> stamp
      \<and> clock_ok stamp (rate_limit_wait ts now stamp) rs)"

fun request_times :: "real list \<Rightarrow> (real \<times> real) list \<Rightarrow> real list" where
  "request_times ts [] = ts"
| "request_times ts ((now, stamp) # rs) = request_times (rate_limit_wait ts now stamp) rs"

text \<open>The timestamps of the admissions of a run, and those inside the window \<open>[s, s + 60)\<close>.\<close>

definition admitted :: "(real \<times> real) list \<Rightarrow> real list" where
  "admitted rs = map snd rs"

definition in_window :: "real \<Rightarrow> real list \<Rightarrow> real list" where
  "in_window s ts = filter (\<lambda>t. s \<le> t \<and> t < s + RATE_WINDOW) ts"

text \<open>
  The invariant of a run, used in the proofs: \<open>hist\<close> holds every admission so far in
  order, none is later than the last clock reading, the shared list holds the admissions
  that the last pruning kept, and no window \<open>[s, s + 60)\<close> holds more than four.
\<close>

definition limiter_inv :: "real \<Rightarrow> real list \<Rightarrow> real list \<Rightarrow> bool" where
  "limiter_inv prev ts hist =
     (sorted hist \<and> list_all (\<lambda>t. t \<le> prev) hist
      \<and> (\<exists>c. c \<le> prev \<and> ts = filter (\<lambda>t. c - t < RATE_WINDOW) hist)
      \<and> (\<forall>s. length (in_window s hist) \<le> 4))"

subsection \<open>\<open>_build_result\<close>\<close>

definition stats_get :: "stats \<Rightarrow> string \<Rightarrow> int" where
  "stats_get st k = (case st k of None \<Rightarrow> 0 | Some v \<Rightarrow> v)"

definition build_result :: "pystr \<Rightarrow> stats \<Rightarrow> result" where
  "build_result url st =
     (let malicious = stats_get st ''malicious'';
          suspicious = stats_get st ''suspicious'';
          harmless = stats_get st ''harmless'';
          undetected = stats_get st ''undetected'';
          total0 = malicious + suspicious + harmless + undetected;
          total_engines = (if total0 = 0 then 1 else total0);
          detection_ratio = real_of_int (malicious + suspicious) / real_of_int total_engines;
          score = py_round (detection_ratio * 100) 2
      in \<lparr> risk_score = score,
           classification = (if score < 15 then Safe else if score < 50 then Suspicious else Phishing),
           confidence = py_round (min (real_of_int total_engines / 70) 1) 3,
           reasoning = [Vt_detection malicious suspicious total_engines,
                        Vt_ratio detection_ratio,
                        Vt_harmless harmless undetected],
           engine = Virustotal_api total_engines,
           features = No_features_key,
           api_used = Some True,
           raw_stats = Some st \<rparr>)"

text \<open>The thresholds of the heuristic scorer (section 4.2 of the specification).\<close>

definition heuristic_bucket :: "real \<Rightarrow> classification" where
  "heuristic_bucket s = (if s < 30 then Safe else if s < 65 then Suspicious else Phishing)"

subsection \<open>\<open>scan_url\<close>\<close>

text \<open>
  What the service answers is an input: the reply to the submission and the reply to each
  poll attempt, counted from 0. A reply is a network failure or a status code with a body;
  of a body the model keeps what the source reads. The effects of a call are returned as
  the list of its events, in order.
\<close>

datatype submit_body = Submit_invalid_json | Submit_wrong_shape | Submit_without_id | Submit_id pystr

datatype submit_reply = Submit_network_error | Submit_http nat submit_body

datatype poll_body = Poll_invalid_json | Poll_wrong_shape | Poll_status "pystr option" stats

datatype poll_reply = Poll_network_error | Poll_http nat poll_body

datatype event = Rate_limit_wait | Post pystr | Sleep nat | Get pystr

record environment =
  env_api_key :: pystr
  submit_reply :: "pystr \<Rightarrow> submit_reply"
  poll_reply :: "nat \<Rightarrow> poll_reply"
  ml_model_available :: bool
  ml_predict :: "pystr \<Rightarrow> py_exception + result option"
  insert_scan_raises :: bool

definition get_api_key :: "environment \<Rightarrow> pystr option" where
  "get_api_key env = (let key = strip (env_api_key env) in if key = [] then None else Some key)"

definition api_key_available :: "environment \<Rightarrow> bool" where
  "api_key_available env = (case get_api_key env of None \<Rightarrow> False | Some key \<Rightarrow> 32 \<le> length key)"

definition analysis_url :: "pystr \<Rightarrow> pystr" where
  "analysis_url analysis_id = str ''https://www.virustotal.com/api/v3/analyses/'' @ analysis_id"

fun poll_loop :: "(nat \<Rightarrow> poll_reply) \<Rightarrow> pystr \<Rightarrow> pystr \<Rightarrow> nat \<Rightarrow> nat
    \<Rightarrow> event list \<times> (py_exception + result)" where
  "poll_loop replies url aurl k 0 = ([], Inl RuntimeError_timed_out)"
| "poll_loop replies url aurl k (Suc n) =
     (let evs = [Sleep 5, Rate_limit_wait, Get aurl];
          continue = poll_loop replies url aurl (Suc k) n
      in case replies k of
           Poll_network_error \<Rightarrow> (evs @ fst continue, snd continue)
         | Poll_http code body \<Rightarrow>
             if code \<noteq> 200 then (evs @ fst continue, snd continue)
             else
               (case body of
                  Poll_invalid_json \<Rightarrow> (evs, Inl ValueError)
                | Poll_wrong_shape \<Rightarrow> (evs, Inl AttributeError)
                | Poll_status status st \<Rightarrow>
                    if status = Some (str ''completed'') then (evs, Inr (build_result url st))
                    else (evs @ fst continue, snd continue)))"

definition scan_url :: "environment \<Rightarrow> pystr \<Rightarrow> event list \<times> (py_exception + result)" where
  "scan_url env url0 =
     (case get_api_key env of
        None \<Rightarrow> ([], Inl RuntimeError_not_configured)
      | Some key \<Rightarrow>
          (case normalize_url url0 of
             Inl e \<Rightarrow> ([], Inl e)
           | Inr url \<Rightarrow>
               (let evs = [Rate_limit_wait, Post url]
                in case submit_reply env url of
                     Submit_network_error \<Rightarrow> (evs, Inl RuntimeError_network)
                   | Submit_http code body \<Rightarrow>
                       if code = 401 then (evs, Inl RuntimeError_invalid_key)
                       else if code = 429 then (evs, Inl RuntimeError_rate_limit)
                       else if code \<noteq> 200 \<and> code \<noteq> 201
                       then (evs, Inl (RuntimeError_submission_failed code))
                       else
                         (case body of
                            Submit_invalid_json \<Rightarrow> (evs, Inl RuntimeError_unexpected_response)
                          | Submit_without_id \<Rightarrow> (evs, Inl RuntimeError_unexpected_response)
                          | Submit_wrong_shape \<Rightarrow> (evs, Inl TypeError)
                          | Submit_id analysis_id \<Rightarrow>
                              (let polled = poll_loop (poll_reply env) url (analysis_url analysis_id) 0 12
                               in (evs @ fst polled, snd polled))))))"

text \<open>The poll attempts among the events of a call.\<close>

fun is_get :: "event \<Rightarrow> bool" where
  "is_get (Get u) = True"
| "is_get e = False"

text \<open>A poll reply that ends the loop: status 200 with a body that completes or breaks the call.\<close>

fun keeps_polling :: "poll_reply \<Rightarrow> bool" where
  "keeps_polling Poll_network_error = True"
| "keeps_polling (Poll_http code Poll_invalid_json) = (code \<noteq> 200)"
| "keeps_polling (Poll_http code Poll_wrong_shape) = (code \<noteq> 200)"
| "keeps_polling (Poll_http code (Poll_status status st)) =
     (code \<noteq> 200 \<or> status \<noteq> Some (str ''completed''))"

section \<open>The heuristic scorer: \<open>core/heuristic_engine.py\<close>\<close>

definition SUSPICIOUS_KEYWORDS :: "pystr list" where
  "SUSPICIOUS_KEYWORDS = map str
     [''login'', ''signin'', ''sign-in'', ''verify'', ''secure'', ''account'',
      ''update'', ''confirm'', ''bank'', ''paypal'', ''password'', ''credential'',
      ''suspend'', ''alert'', ''urgent'', ''click'', ''free'', ''winner'', ''prize'',
      ''bonus'', ''offer'', ''gift'', ''reward'', ''billing'', ''invoice'',
      ''authenticate'', ''wallet'', ''recover'', ''unlock'', ''validate'',
      ''webscr'', ''cmd'', ''token'', ''auth'', ''sso'', ''oauth'']"

definition HIGH_RISK_TLDS :: "(pystr \<times> real) list" where
  "HIGH_RISK_TLDS = map (\<lambda>(t, r). (str t, r))
     [(''.tk'', 8), (''.ml'', 8), (''.ga'', 8), (''.cf'', 8), (''.gq'', 8),
      (''.xyz'', 6), (''.top'', 6), (''.pw'', 7), (''.cc'', 5), (''.club'', 5),
      (''.work'', 5), (''.buzz'', 6), (''.icu'', 6), (''.cam'', 5), (''.surf'', 5),
      (''.link'', 4), (''.click'', 5), (''.info'', 3), (''.biz'', 3), (''.online'', 4),
      (''.site'', 4), (''.store'', 3), (''.fun'', 4)]"

definition TARGET_BRANDS :: "(pystr \<times> pystr list) list" where
  "TARGET_BRANDS = map (\<lambda>(b, vs). (str b, map str vs))
     [(''facebook'', [''faceb00k'', ''facbook'', ''facebk'', ''fb-login'', ''faceb0ok'']),
      (''google'', [''g00gle'', ''gogle'', ''googl'', ''go0gle'', ''goog1e'']),
      (''paypal'', [''paypa1'', ''paypall'', ''pay-pal'', ''payp4l'']),
      (''microsoft'', [''micros0ft'', ''microsft'', ''m1crosoft'', ''micr0soft'']),
      (''apple'', [''app1e'', ''appie'', ''apple-id'', ''appl3'']),
      (''amazon'', [''amaz0n'', ''amazn'', ''arnazon'', ''amzon'']),
      (''netflix'', [''netf1ix'', ''netflex'', ''netfl1x'']),
      (''instagram'', [''1nstagram'', ''instagran'', ''lnstagram'']),
      (''twitter'', [''tw1tter'', ''tvvitter'', ''twiiter'']),
      (''linkedin'', [''linkedln'', ''l1nkedin'', ''linkdin''])]"

text \<open>
  The dictionary literal of the source binds U+0443 twice; the later binding stands, so
  the entries are looked up from the last one back.
\<close>

definition HOMOGRAPH_MAP :: "nat \<Rightarrow> pystr option" where
  "HOMOGRAPH_MAP = map_of (rev (map (\<lambda>(c, l). (c, str l))
     [(1072, ''a''), (1077, ''e''), (1086, ''o''), (1088, ''p''),
      (1089, ''c''), (1091, ''y''), (1093, ''x''), (1211, ''h''),
      (1110, ''i''), (1112, ''j''), (1231, ''l''), (1085, ''n''),
      (1109, ''s''), (1090, ''t''), (1098, ''b''), (1074, ''v''),
      (1096, ''w''), (1091, ''u''), (1079, ''3'')]))"

definition shannon_entropy :: "pystr \<Rightarrow> real" where
  "shannon_entropy text =
     (if text = [] then 0
      else - sum_list (map (\<lambda>c. (real (count_list text c) / real (length text))
                                * log 2 (real (count_list text c) / real (length text)))
                           (remdups text)))"

text \<open>
  The pattern of \<open>_is_ip_address\<close>, \<open>^(\d{1,3}\.){3}\d{1,3}$|^\[?[0-9a-fA-F:]+\]?$\<close>, matched
  at the start of the host. \<open>$\<close> matches at the end and before a final newline.
\<close>

definition at_end :: "pystr \<Rightarrow> bool" where
  "at_end s = (s = [] \<or> s = [10])"

fun ipv4_groups :: "nat \<Rightarrow> pystr \<Rightarrow> pystr option" where
  "ipv4_groups 0 s = Some s"
| "ipv4_groups (Suc n) s =
     (let ds = takeWhile is_ascii_digit s; rest = dropWhile is_ascii_digit s
      in if 1 \<le> length ds \<and> length ds \<le> 3 \<and> take 1 rest = [46]
         then ipv4_groups n (drop 1 rest) else None)"

definition matches_ipv4 :: "pystr \<Rightarrow> bool" where
  "matches_ipv4 host =
     (case ipv4_groups 3 host of
        None \<Rightarrow> False
      | Some s \<Rightarrow> 1 \<le> length (takeWhile is_ascii_digit s) \<and> length (takeWhile is_ascii_digit s) \<le> 3
                  \<and> at_end (dropWhile is_ascii_digit s))"

definition is_hex_or_colon :: "nat \<Rightarrow> bool" where
  "is_hex_or_colon c = (is_hex c \<or> c = 58)"

definition matches_ipv6 :: "pystr \<Rightarrow> bool" where
  "matches_ipv6 host =
     (let s1 = (if take 1 host = [91] then drop 1 host else host);
          body = takeWhile is_hex_or_colon s1;
          s2 = dropWhile is_hex_or_colon s1;
          s3 = (if take 1 s2 = [93] then drop 1 s2 else s2)
      in body \<noteq> [] \<and> at_end s3)"

definition is_ip_address :: "pystr \<Rightarrow> bool" where
  "is_ip_address host = (matches_ipv4 host \<or> matches_ipv6 host)"

fun levenshtein_row :: "nat \<Rightarrow> pystr \<Rightarrow> nat list \<Rightarrow> nat \<Rightarrow> nat list" where
  "levenshtein_row c1 (c2 # s2) (p0 # p1 # prev_row) left =
     (let v = min (min (p1 + 1) (left + 1)) (p0 + (if c1 \<noteq> c2 then 1 else 0))
      in v # levenshtein_row c1 s2 (p1 # prev_row) v)"
| "levenshtein_row c1 s2 prev_row left = []"

fun levenshtein_rows :: "pystr \<Rightarrow> pystr \<Rightarrow> nat list \<Rightarrow> nat \<Rightarrow> nat list" where
  "levenshtein_rows [] s2 prev_row i = prev_row"
| "levenshtein_rows (c1 # s1) s2 prev_row i =
     levenshtein_rows s1 s2 ((i + 1) # levenshtein_row c1 s2 prev_row (i + 1)) (i + 1)"

definition levenshtein :: "pystr \<Rightarrow> pystr \<Rightarrow> nat" where
  "levenshtein a b =
     (let s1 = (if length a < length b then b else a);
          s2 = (if length a < length b then a else b)
      in if s2 = [] then length s1
         else last (levenshtein_rows s1 s2 [0..<length s2 + 1] 0))"

definition detect_homographs :: "pystr \<Rightarrow> (nat \<times> pystr) list" where
  "detect_homographs domain =
     concat (map (\<lambda>c. case HOMOGRAPH_MAP c of None \<Rightarrow> [] | Some l \<Rightarrow> [(c, l)]) domain)"

definition brand_hits :: "pystr \<Rightarrow> pystr \<times> pystr list \<Rightarrow> (pystr \<times> pystr option \<times> nat) list" where
  "brand_hits domain_lower bv =
     (if contains domain_lower (fst bv) \<and> hd (split_on 46 domain_lower) \<noteq> fst bv
      then [(fst bv, None, 0)] else [])
     @ concat (map (\<lambda>v. if contains domain_lower v then [(fst bv, Some v, levenshtein v (fst bv))] else [])
                   (snd bv))"

definition detect_brand_spoofing :: "pystr \<Rightarrow> (pystr \<times> pystr option \<times> nat) list" where
  "detect_brand_spoofing domain = concat (map (brand_hits (lower domain)) TARGET_BRANDS)"

subsection \<open>\<open>analyze_url\<close>\<close>

text \<open>
  Each check yields nothing or one penalty with its reasoning line; \<open>findings\<close> puts the
  checks in the order of the source, so that the score is the sum of the penalties and the
  reasoning is the list of the lines.
\<close>

type_synonym finding = "real \<times> reason"

definition check_domain_length :: "pystr \<Rightarrow> finding list" where
  "check_domain_length host =
     (if 30 < length host
      then [(min ((real (length host) - 30) * 0.5) 12,
             Long_domain (length host) (min ((real (length host) - 30) * 0.5) 12))]
      else [])"

definition check_entropy :: "pystr \<Rightarrow> finding list" where
  "check_entropy host =
     (if 3.8 < shannon_entropy host
      then [(min ((shannon_entropy host - 3.8) * 8) 15,
             High_entropy (shannon_entropy host) (min ((shannon_entropy host - 3.8) * 8) 15))]
      else [])"

definition check_hyphens :: "pystr \<Rightarrow> finding list" where
  "check_hyphens host =
     (if 2 \<le> count_list host 45
      then [(min (real (count_list host 45) * 3) 12,
             Multiple_hyphens (count_list host 45) (min (real (count_list host 45) * 3) 12))]
      else [])"

definition found_keywords :: "pystr \<Rightarrow> pystr list" where
  "found_keywords full = filter (\<lambda>kw. contains (lower full) kw) SUSPICIOUS_KEYWORDS"

definition check_keywords :: "pystr \<Rightarrow> finding list" where
  "check_keywords full =
     (if found_keywords full \<noteq> []
      then [(min (real (length (found_keywords full)) * 4) 20,
             Suspicious_keywords (found_keywords full) (min (real (length (found_keywords full)) * 4) 20))]
      else [])"

definition tld_score :: "pystr \<Rightarrow> real" where
  "tld_score host =
     (case filter (\<lambda>tr. endswith host (fst tr)) HIGH_RISK_TLDS of [] \<Rightarrow> 0 | tr # _ \<Rightarrow> snd tr)"

definition check_tld :: "pystr \<Rightarrow> finding list" where
  "check_tld host = (if tld_score host \<noteq> 0 then [(tld_score host, High_risk_tld (tld_score host))] else [])"

definition check_ip :: "pystr \<Rightarrow> finding list" where
  "check_ip host = (if is_ip_address host then [(15, Raw_ip_address)] else [])"

definition subdomain_depth :: "pystr \<Rightarrow> int" where
  "subdomain_depth host = (if host \<noteq> [] then int (count_list host 46) - 1 else 0)"

definition check_subdomains :: "pystr \<Rightarrow> finding list" where
  "check_subdomains host =
     (if 3 \<le> subdomain_depth host
      then [(min (real_of_int ((subdomain_depth host - 2) * 4)) 12,
             Deep_subdomains (subdomain_depth host) (min (real_of_int ((subdomain_depth host - 2) * 4)) 12))]
      else [])"

definition check_homographs :: "pystr \<Rightarrow> finding list" where
  "check_homographs host =
     (if detect_homographs host \<noteq> []
      then [(min (real (length (detect_homographs host)) * 8) 20,
             Homograph_chars (detect_homographs host) (min (real (length (detect_homographs host)) * 8) 20))]
      else [])"

definition check_brands :: "pystr \<Rightarrow> finding list" where
  "check_brands host =
     (if detect_brand_spoofing host \<noteq> []
      then [(min (real (length (detect_brand_spoofing host)) * 8) 20,
             Brand_spoofing (detect_brand_spoofing host) (min (real (length (detect_brand_spoofing host)) * 8) 20))]
      else [])"

definition check_https :: "pystr \<Rightarrow> finding list" where
  "check_https sch = (if sch \<noteq> str ''https'' then [(5, No_https)] else [])"

definition path_depth :: "pystr \<Rightarrow> nat" where
  "path_depth p = length (filter (\<lambda>seg. seg \<noteq> []) (split_on 47 p))"

definition check_path_depth :: "pystr \<Rightarrow> finding list" where
  "check_path_depth p =
     (if 5 < path_depth p
      then [(min ((real (path_depth p) - 5) * 2) 8,
             Deep_path (path_depth p) (min ((real (path_depth p) - 5) * 2) 8))]
      else [])"

definition check_at_sign :: "pystr \<Rightarrow> finding list" where
  "check_at_sign url = (if 64 \<in> set url then [(10, At_sign)] else [])"

definition digit_ratio :: "pystr \<Rightarrow> real" where
  "digit_ratio host =
     (if host \<noteq> [] then real (length (filter isdigit host)) / real (length host) else 0)"

definition check_digit_ratio :: "pystr \<Rightarrow> finding list" where
  "check_digit_ratio host =
     (if 0.3 < digit_ratio host
      then [(min (digit_ratio host * 20) 10,
             High_digit_ratio (digit_ratio host) (min (digit_ratio host * 20) 10))]
      else [])"

text \<open>
  \<open>host\<close> and \<open>path\<close> as the source takes them from the parse, and the URL after
  \<open>unquote\<close>, \<open>strip\<close> and the default scheme.
\<close>

definition host_of :: "parse_result \<Rightarrow> pystr" where
  "host_of parsed = (case hostname parsed of None \<Rightarrow> [] | Some h \<Rightarrow> h)"

definition prepared :: "pystr \<Rightarrow> pystr" where
  "prepared url0 = add_scheme (strip (unquote url0))"

definition findings :: "pystr \<Rightarrow> parse_result \<Rightarrow> finding list" where
  "findings url parsed =
     check_domain_length (host_of parsed)
     @ check_entropy (host_of parsed)
     @ check_hyphens (host_of parsed)
     @ check_keywords (host_of parsed @ path parsed)
     @ check_tld (host_of parsed)
     @ check_ip (host_of parsed)
     @ check_subdomains (host_of parsed)
     @ check_homographs (host_of parsed)
     @ check_brands (host_of parsed)
     @ check_https (scheme parsed)
     @ check_path_depth (path parsed)
     @ check_at_sign url
     @ check_digit_ratio (host_of parsed)"

text \<open>The score after the clamp, before it is rounded into the result.\<close>

definition clamped_score :: "pystr \<Rightarrow> parse_result \<Rightarrow> real" where
  "clamped_score url parsed = max 0 (min 100 (foldl (+) 0 (map fst (findings url parsed))))"

definition extract_features :: "pystr \<Rightarrow> parse_result \<Rightarrow> feature_values" where
  "extract_features url parsed =
     \<lparr> f_domain_length = length (host_of parsed),
       f_entropy = py_round (shannon_entropy (host_of parsed)) 3,
       f_hyphen_count = count_list (host_of parsed) 45,
       f_suspicious_keywords = found_keywords (host_of parsed @ path parsed),
       f_tld_risk = tld_score (host_of parsed),
       f_is_ip_address = is_ip_address (host_of parsed),
       f_subdomain_depth = max (subdomain_depth (host_of parsed)) 0,
       f_homograph_chars = detect_homographs (host_of parsed),
       f_brand_spoofing = detect_brand_spoofing (host_of parsed),
       f_uses_https = (scheme parsed = str ''https''),
       f_path_depth = path_depth (path parsed),
       f_has_at_sign = (64 \<in> set url),
       f_digit_ratio = py_round (digit_ratio (host_of parsed)) 3 \<rparr>"

definition analyze_url :: "pystr \<Rightarrow> py_exception + result" where
  "analyze_url url0 =
     (case urlparse (prepared url0) of
        Inl e \<Rightarrow> Inl e
      | Inr parsed \<Rightarrow>
          (let score = clamped_score (prepared url0) parsed;
               reasons = map snd (findings (prepared url0) parsed)
           in Inr \<lparr> risk_score = py_round score 2,
                    classification =
                      (if score < 30 then Safe else if score < 65 then Suspicious else Phishing),
                    confidence = py_round (min (0.5 + real (length reasons) / 12 * 0.5) 1) 3,
                    reasoning = (if reasons = [] then [No_indicators] else reasons),
                    engine = Heuristic_engine,
                    features = Features (extract_features (prepared url0) parsed),
                    api_used = None,
                    raw_stats = None \<rparr>))"


section \<open>The orchestrator: \<open>_run_scan\<close> in \<open>ui/scanner_tab.py\<close>\<close>

text \<open>
  The statistical model and the database are collaborators: whether a model is available,
  what \<open>predict\<close> returns or raises and whether \<open>insert_scan\<close> raises are inputs. The
  result is the dictionary that the method emits.
\<close>

definition error_result :: "py_exception \<Rightarrow> result" where
  "error_result e =
     \<lparr> risk_score = 0, classification = Error, confidence = 0,
       reasoning = [Exception_text e], engine = Engine_na, features = Empty_features,
       api_used = None, raw_stats = None \<rparr>"

definition api_stage :: "environment \<Rightarrow> pystr \<Rightarrow> result option" where
  "api_stage env url =
     (if api_key_available env
      then (case snd (scan_url env url) of Inl e \<Rightarrow> None | Inr r \<Rightarrow> Some r)
      else None)"

definition ml_stage :: "environment \<Rightarrow> pystr \<Rightarrow> result option \<Rightarrow> py_exception + result option" where
  "ml_stage env url res =
     (if res = None \<and> ml_model_available env
      then (case ml_predict env url of
              Inl e \<Rightarrow> Inl e
            | Inr None \<Rightarrow> Inr None
            | Inr (Some ml_result) \<Rightarrow> Inr (Some (ml_result\<lparr>api_used := Some False\<rparr>)))
      else Inr res)"

definition heuristic_stage :: "pystr \<Rightarrow> result option \<Rightarrow> py_exception + result" where
  "heuristic_stage url res =
     (case res of
        Some r \<Rightarrow> Inr r
      | None \<Rightarrow>
          (case analyze_url url of
             Inl e \<Rightarrow> Inl e
           | Inr r \<Rightarrow> Inr (r\<lparr>api_used := Some False\<rparr>)))"

definition run_scan :: "environment \<Rightarrow> pystr \<Rightarrow> result" where
  "run_scan env url =
     (case ml_stage env url (api_stage env url) of
        Inl e \<Rightarrow> error_result e
      | Inr res \<Rightarrow>
          (case heuristic_stage url res of
             Inl e \<Rightarrow> error_result e
           | Inr r \<Rightarrow> if insert_scan_raises env then error_result Collaborator_failure else r))"

section \<open>Properties\<close>

subsection \<open>Evaluation on concrete strings\<close>

lemmas str_eval = str_def strip_def isspace_def add_scheme_def startswith_def endswith_def unquote_def
  lower_def lower_char_def is_ascii_alpha_def is_scheme_char_def is_ascii_digit_def before_def after_def
  rstrip_char_def

lemmas url_eval = urlparse_def split_rest_def unsafe_removed_def split_scheme_def splitnetloc_def is_netloc_delim_def uses_params_def
  splitparams_def hostinfo_def hostname_def port_def host_of_def prepared_def int_of_str_def Let_def

lemmas heur_eval = check_domain_length_def check_hyphens_def check_keywords_def found_keywords_def
  SUSPICIOUS_KEYWORDS_def check_tld_def tld_score_def HIGH_RISK_TLDS_def check_ip_def is_ip_address_def
  matches_ipv4_def matches_ipv6_def is_hex_or_colon_def is_hex_def at_end_def check_subdomains_def
  subdomain_depth_def check_homographs_def detect_homographs_def HOMOGRAPH_MAP_def check_brands_def
  detect_brand_spoofing_def brand_hits_def TARGET_BRANDS_def levenshtein_def check_https_def
  check_path_depth_def path_depth_def check_at_sign_def check_digit_ratio_def digit_ratio_def isdigit_def

subsection \<open>The reputation client's thresholds\<close>

text \<open>
  C2, as stated, fails: with one malicious and four harmless verdicts the reputation client
  reports a risk score of 20 and classifies it as Suspicious, where the heuristic's
  thresholds give Safe.
\<close>

theorem build_result_thresholds_counterexample:
  "risk_score (build_result (str ''http://a/'') [''malicious'' \<mapsto> 1, ''harmless'' \<mapsto> 4]) = 20
   \<and> classification (build_result (str ''http://a/'') [''malicious'' \<mapsto> 1, ''harmless'' \<mapsto> 4]) = Suspicious
   \<and> heuristic_bucket (risk_score (build_result (str ''http://a/'') [''malicious'' \<mapsto> 1, ''harmless'' \<mapsto> 4])) = Safe"
  by (simp add: build_result_def stats_get_def py_round_def heuristic_bucket_def Let_def)

text \<open>
  C2, amended: for every set of detector statistics the reputation client classifies its
  reported risk score with its own thresholds: below 15 is Safe, from 15 to below 50 is
  Suspicious, 50 and above is Phishing.
\<close>

theorem build_result_thresholds:
  "classification (build_result url st) =
     (if risk_score (build_result url st) < 15 then Safe
      else if risk_score (build_result url st) < 50 then Suspicious else Phishing)"
  by (simp add: build_result_def Let_def)

subsection \<open>The heuristic scorer's score and classification\<close>

lemma py_round_bounds:
  assumes "0 \<le> x" "x \<le> b" "b * 10 ^ nd \<in> \<int>"
  shows "0 \<le> py_round x nd \<and> py_round x nd \<le> b"
proof -
  define y where "y = x * 10 ^ nd"
  define f where "f = \<lfloor>y\<rfloor>"
  obtain B :: int where B: "b * 10 ^ nd = of_int B" using assms(3) by (auto elim: Ints_cases)
  have y0: "0 \<le> y" using assms(1) by (simp add: y_def)
  have "x * 10 ^ nd \<le> b * 10 ^ nd" using assms(2) by (intro mult_right_mono) simp_all
  then have yB: "y \<le> of_int B" using B by (simp add: y_def)
  have f0: "0 \<le> f" using y0 by (simp add: f_def)
  have fB: "f \<le> B" using yB by (simp add: f_def floor_le_iff)
  have f1: "1 / 2 \<le> y - of_int f \<Longrightarrow> f + 1 \<le> B"
  proof -
    assume "1 / 2 \<le> y - of_int f"
    then have "of_int f < (of_int B :: real)" using yB by linarith
    then show ?thesis by simp
  qed
  define r where "r = (if y - of_int f < 1 / 2 then f else if 1 / 2 < y - of_int f then f + 1
                 else if even f then f else f + 1)"
  have r0: "0 \<le> r" and rB: "r \<le> B" using f0 fB f1 by (auto simp: r_def)
  have eq: "py_round x nd = of_int r / 10 ^ nd"
    by (simp add: py_round_def Let_def y_def f_def r_def)
  have "of_int r / 10 ^ nd \<le> (of_int B :: real) / 10 ^ nd" using rB by (simp add: divide_right_mono)
  also have "\<dots> = b" using B[symmetric] by simp
  finally have "py_round x nd \<le> b" using eq by simp
  moreover have "0 \<le> py_round x nd" using r0 eq by simp
  ultimately show ?thesis by simp
qed

lemma py_round_close: "\<bar>py_round x nd - x\<bar> \<le> 1 / (2 * 10 ^ nd)"
proof -
  define y where "y = x * 10 ^ nd"
  define f where "f = \<lfloor>y\<rfloor>"
  define r where "r = (if y - of_int f < 1 / 2 then f else if 1 / 2 < y - of_int f then f + 1
                 else if even f then f else f + 1)"
  have eq: "py_round x nd = of_int r / 10 ^ nd"
    by (simp add: py_round_def Let_def y_def f_def r_def)
  have fl: "of_int f \<le> y" "y < of_int f + 1" by (simp_all add: f_def)
  have "\<bar>of_int r - y\<bar> \<le> 1 / 2" using fl by (auto simp: r_def)
  then have "\<bar>of_int r - y\<bar> / 10 ^ nd \<le> (1 / 2) / 10 ^ nd" by (intro divide_right_mono) simp_all
  moreover have "\<bar>of_int r - y\<bar> / 10 ^ nd = \<bar>of_int r / 10 ^ nd - x\<bar>"
  proof -
    have "(of_int r - y) / 10 ^ nd = of_int r / 10 ^ nd - x"
      by (simp add: y_def diff_divide_distrib)
    then have "\<bar>of_int r / 10 ^ nd - x\<bar> = \<bar>(of_int r - y) / 10 ^ nd\<bar>" by simp
    also have "\<dots> = \<bar>of_int r - y\<bar> / 10 ^ nd" by (simp only: abs_divide) simp
    finally show ?thesis by simp
  qed
  ultimately show ?thesis using eq by simp
qed

lemma clamped_score_range: "0 \<le> clamped_score url parsed \<and> clamped_score url parsed \<le> 100"
  by (simp add: clamped_score_def)





text \<open>The scorer on \<open>cafe\<close>: the IP-literal check and the missing HTTPS, 20 in all.\<close>

lemma ipv4_groups_3: "ipv4_groups 3 s = ipv4_groups (Suc (Suc (Suc 0))) s"
  by (simp add: numeral_3_eq_3)

lemma entropy_cafe: "shannon_entropy (str ''cafe'') = 2"
proof -
  have "log 2 ((2::real) ^ 2) = real 2 * log 2 2" by (rule log_nat_power) simp
  then have "log 2 4 = (2::real)" by simp
  then have a: "log 2 (1 / 4) = - 2" by (simp add: log_divide)
  show ?thesis by (simp add: shannon_entropy_def str_def a)
qed

lemma parse_cafe:
  "urlparse (prepared (str ''cafe'')) =
     Inr \<lparr> scheme = str ''http'', netloc = str ''cafe'', path = [], params = [], query = [], fragment = [] \<rparr>"
  by (simp add: str_eval url_eval)

lemma host_cafe:
  "host_of \<lparr> scheme = str ''http'', netloc = str ''cafe'', path = [], params = [], query = [], fragment = [] \<rparr>
   = str ''cafe''"
  by (simp add: str_eval url_eval)

lemma prepared_cafe: "prepared (str ''cafe'') = str ''http://cafe''"
  by (simp add: str_eval url_eval)

lemma checks_cafe:
  "check_domain_length (str ''cafe'') = []
  \<and> check_hyphens (str ''cafe'') = []
  \<and> check_keywords (str ''cafe'') = []
  \<and> check_tld (str ''cafe'') = []
  \<and> check_ip (str ''cafe'') = [(15, Raw_ip_address)]
  \<and> check_subdomains (str ''cafe'') = []
  \<and> check_homographs (str ''cafe'') = []
  \<and> check_brands (str ''cafe'') = []
  \<and> check_https (str ''http'') = [(5, No_https)]
  \<and> check_path_depth [] = []
  \<and> check_at_sign (str ''http://cafe'') = []
  \<and> check_digit_ratio (str ''cafe'') = []"
  by (simp add: heur_eval str_eval ipv4_groups_3)

lemma check_entropy_cafe: "check_entropy (str ''cafe'') = []"
  by (simp add: check_entropy_def entropy_cafe)

lemma findings_cafe:
  "findings (str ''http://cafe'')
     \<lparr> scheme = str ''http'', netloc = str ''cafe'', path = [], params = [], query = [], fragment = [] \<rparr>
   = [(15, Raw_ip_address), (5, No_https)]"
  unfolding findings_def host_cafe parse_result.simps append_Nil2 check_entropy_cafe using checks_cafe by simp

lemma analyze_cafe:
  "analyze_url (str ''cafe'') =
     Inr \<lparr> risk_score = 20, classification = Safe, confidence = 583 / 1000,
           reasoning = [Raw_ip_address, No_https], engine = Heuristic_engine,
           features = Features (extract_features (str ''http://cafe'')
             \<lparr> scheme = str ''http'', netloc = str ''cafe'', path = [], params = [], query = [], fragment = [] \<rparr>),
           api_used = None, raw_stats = None \<rparr>"
  unfolding analyze_url_def prepared_cafe parse_cafe[unfolded prepared_cafe] sum.case Let_def
    clamped_score_def findings_cafe
  by (simp add: py_round_def Let_def)


subsection \<open>The IP-literal check\<close>










subsection \<open>The submit and poll protocol\<close>

lemma poll_loop_keeps_polling:
  "(\<forall>j. k \<le> j \<and> j < k + n \<longrightarrow> keeps_polling (replies j)) \<Longrightarrow>
   poll_loop replies url aurl k n =
     (concat (replicate n [Sleep 5, Rate_limit_wait, Get aurl]), Inl RuntimeError_timed_out)"
proof (induction n arbitrary: k)
  case 0
  show ?case by simp
next
  case (Suc n)
  have rest: "poll_loop replies url aurl (Suc k) n =
     (concat (replicate n [Sleep 5, Rate_limit_wait, Get aurl]), Inl RuntimeError_timed_out)"
    using Suc.prems by (intro Suc.IH) auto
  have here: "keeps_polling (replies k)" using Suc.prems by auto
  show ?case
  proof (cases "replies k")
    case Poll_network_error
    then show ?thesis using rest by (simp add: Let_def)
  next
    case (Poll_http code body)
    then show ?thesis using rest here by (cases body) (auto simp: Let_def)
  qed
qed

lemma filter_is_get_polls:
  "length (filter is_get (concat (replicate n [Sleep 5, Rate_limit_wait, Get aurl]))) = n"
  by (induction n) simp_all

text \<open>
  With a credential and a URL that normalizes, a submission answered with status 401 fails
  with the invalid-key error after the rate-limiter acquisition and the POST, with no poll
  attempt; and when the submission succeeds and each of the twelve poll replies lets the
  loop go on, the call fails with the timed-out error after exactly twelve poll attempts,
  each preceded by the sleep of 5 seconds and a rate-limiter acquisition.
\<close>

theorem scan_url_auth_error_and_timeout:
  assumes "get_api_key env = Some key" and "normalize_url url0 = Inr url"
  shows "(submit_reply env url = Submit_http 401 body \<longrightarrow>
            scan_url env url0 = ([Rate_limit_wait, Post url], Inl RuntimeError_invalid_key)
            \<and> filter is_get (fst (scan_url env url0)) = [])
       \<and> ((code = 200 \<or> code = 201) \<and> submit_reply env url = Submit_http code (Submit_id aid)
            \<and> (\<forall>k<12. keeps_polling (poll_reply env k)) \<longrightarrow>
            scan_url env url0 =
              ([Rate_limit_wait, Post url]
                 @ concat (replicate 12 [Sleep 5, Rate_limit_wait, Get (analysis_url aid)]),
               Inl RuntimeError_timed_out)
            \<and> length (filter is_get (fst (scan_url env url0))) = 12)"
proof (intro conjI impI)
  assume "submit_reply env url = Submit_http 401 body"
  then show a: "scan_url env url0 = ([Rate_limit_wait, Post url], Inl RuntimeError_invalid_key)"
    using assms by (simp add: scan_url_def)
  show "filter is_get (fst (scan_url env url0)) = []" by (simp add: a)
next
  assume h: "(code = 200 \<or> code = 201) \<and> submit_reply env url = Submit_http code (Submit_id aid)
            \<and> (\<forall>k<12. keeps_polling (poll_reply env k))"
  then have "\<forall>j. 0 \<le> j \<and> j < 0 + 12 \<longrightarrow> keeps_polling (poll_reply env j)" by simp
  then have p: "poll_loop (poll_reply env) url (analysis_url aid) 0 12 =
     (concat (replicate 12 [Sleep 5, Rate_limit_wait, Get (analysis_url aid)]), Inl RuntimeError_timed_out)"
    by (rule poll_loop_keeps_polling)
  show b: "scan_url env url0 =
              ([Rate_limit_wait, Post url]
                 @ concat (replicate 12 [Sleep 5, Rate_limit_wait, Get (analysis_url aid)]),
               Inl RuntimeError_timed_out)"
    using assms h by (auto simp add: scan_url_def p Let_def simp del: replicate.simps poll_loop.simps)
  show "length (filter is_get (fst (scan_url env url0))) = 12"
    unfolding b fst_conv filter_append using filter_is_get_polls[of 12 "analysis_url aid"] by simp
qed

text \<open>A service that answers 401, and one whose job stays queued.\<close>

theorem scan_url_auth_error_and_timeout_witness:
  "get_api_key \<lparr> env_api_key = str ''0123456789abcdef0123456789abcdef'',
        submit_reply = (\<lambda>u. Submit_http 401 Submit_invalid_json),
        poll_reply = (\<lambda>k. Poll_network_error), ml_model_available = False,
        ml_predict = (\<lambda>u. Inr None), insert_scan_raises = False \<rparr>
     = Some (str ''0123456789abcdef0123456789abcdef'')
   \<and> normalize_url (str ''example.com'') = Inr (str ''http://example.com/'')
   \<and> scan_url \<lparr> env_api_key = str ''0123456789abcdef0123456789abcdef'',
        submit_reply = (\<lambda>u. Submit_http 401 Submit_invalid_json),
        poll_reply = (\<lambda>k. Poll_network_error), ml_model_available = False,
        ml_predict = (\<lambda>u. Inr None), insert_scan_raises = False \<rparr> (str ''example.com'')
     = ([Rate_limit_wait, Post (str ''http://example.com/'')], Inl RuntimeError_invalid_key)
   \<and> snd (scan_url \<lparr> env_api_key = str ''0123456789abcdef0123456789abcdef'',
        submit_reply = (\<lambda>u. Submit_http 200 (Submit_id (str ''u-1''))),
        poll_reply = (\<lambda>k. Poll_http 200 (Poll_status (Some (str ''queued'')) Map.empty)),
        ml_model_available = False,
        ml_predict = (\<lambda>u. Inr None), insert_scan_raises = False \<rparr> (str ''example.com''))
     = Inl RuntimeError_timed_out
   \<and> length (filter is_get (fst (scan_url \<lparr> env_api_key = str ''0123456789abcdef0123456789abcdef'',
        submit_reply = (\<lambda>u. Submit_http 200 (Submit_id (str ''u-1''))),
        poll_reply = (\<lambda>k. Poll_http 200 (Poll_status (Some (str ''queued'')) Map.empty)),
        ml_model_available = False,
        ml_predict = (\<lambda>u. Inr None), insert_scan_raises = False \<rparr> (str ''example.com'')))) = 12"
proof -
  let ?k = "str ''0123456789abcdef0123456789abcdef''"
  let ?e1 = "\<lparr> env_api_key = ?k,
        submit_reply = (\<lambda>u. Submit_http 401 Submit_invalid_json),
        poll_reply = (\<lambda>k. Poll_network_error), ml_model_available = False,
        ml_predict = (\<lambda>u. Inr None), insert_scan_raises = False \<rparr>"
  let ?e2 = "\<lparr> env_api_key = ?k,
        submit_reply = (\<lambda>u. Submit_http 200 (Submit_id (str ''u-1''))),
        poll_reply = (\<lambda>k. Poll_http 200 (Poll_status (Some (str ''queued'')) Map.empty)),
        ml_model_available = False,
        ml_predict = (\<lambda>u. Inr None), insert_scan_raises = False \<rparr>"
  have k1: "get_api_key ?e1 = Some ?k" by (simp add: get_api_key_def str_eval Let_def)
  have k2: "get_api_key ?e2 = Some ?k" by (simp add: get_api_key_def str_eval Let_def)
  have n: "normalize_url (str ''example.com'') = Inr (str ''http://example.com/'')"
    by (simp add: normalize_url_def str_eval url_eval)
  have s1: "submit_reply ?e1 (str ''http://example.com/'') = Submit_http 401 Submit_invalid_json" by simp
  have s2: "(200 = (200::nat) \<or> 200 = (201::nat))
      \<and> submit_reply ?e2 (str ''http://example.com/'') = Submit_http 200 (Submit_id (str ''u-1''))
      \<and> (\<forall>k<12. keeps_polling (poll_reply ?e2 k))" by (simp add: str_def)
  from scan_url_auth_error_and_timeout[OF k1 n, of Submit_invalid_json 200 "str ''u-1''"] s1
  have r1: "scan_url ?e1 (str ''example.com'')
     = ([Rate_limit_wait, Post (str ''http://example.com/'')], Inl RuntimeError_invalid_key)"
    by blast
  from scan_url_auth_error_and_timeout[OF k2 n, of Submit_invalid_json 200 "str ''u-1''"] s2
  have r2: "scan_url ?e2 (str ''example.com'') =
              ([Rate_limit_wait, Post (str ''http://example.com/'')]
                 @ concat (replicate 12 [Sleep 5, Rate_limit_wait, Get (analysis_url (str ''u-1''))]),
               Inl RuntimeError_timed_out)
            \<and> length (filter is_get (fst (scan_url ?e2 (str ''example.com'')))) = 12"
    by blast
  have r2a: "snd (scan_url ?e2 (str ''example.com'')) = Inl RuntimeError_timed_out"
    using r2 by simp
  have r2b: "length (filter is_get (fst (scan_url ?e2 (str ''example.com'')))) = 12"
    using r2 by (rule conjunct2)
  show ?thesis by (intro conjI k1 n r1 r2a r2b)
qed

text \<open>
  C5 on the code: a poll reply with status 200 and a body that is not JSON does not bring
  the status to completed, yet the call does not poll on and does not time out. It raises
  \<open>ValueError\<close> after the first poll attempt, since the body is read outside the handler
  of the request.
\<close>

theorem scan_url_bad_poll_body_raises:
  "scan_url \<lparr> env_api_key = str ''0123456789abcdef0123456789abcdef'',
        submit_reply = (\<lambda>u. Submit_http 200 (Submit_id (str ''u-1''))),
        poll_reply = (\<lambda>k. Poll_http 200 Poll_invalid_json),
        ml_model_available = False,
        ml_predict = (\<lambda>u. Inr None), insert_scan_raises = False \<rparr> (str ''example.com'')
     = ([Rate_limit_wait, Post (str ''http://example.com/''),
         Sleep 5, Rate_limit_wait, Get (analysis_url (str ''u-1''))],
        Inl ValueError)"
proof -
  have n: "normalize_url (str ''example.com'') = Inr (str ''http://example.com/'')"
    by (simp add: normalize_url_def str_eval url_eval)
  have p: "poll_loop (\<lambda>k. Poll_http 200 Poll_invalid_json) (str ''http://example.com/'')
             (analysis_url (str ''u-1'')) 0 12
           = ([Sleep 5, Rate_limit_wait, Get (analysis_url (str ''u-1''))], Inl ValueError)"
    by (simp add: numeral_eq_Suc Let_def)
  have k: "get_api_key \<lparr> env_api_key = str ''0123456789abcdef0123456789abcdef'',
        submit_reply = (\<lambda>u. Submit_http 200 (Submit_id (str ''u-1''))),
        poll_reply = (\<lambda>k. Poll_http 200 Poll_invalid_json),
        ml_model_available = False,
        ml_predict = (\<lambda>u. Inr None), insert_scan_raises = False \<rparr>
      = Some (str ''0123456789abcdef0123456789abcdef'')"
    by (simp add: get_api_key_def str_eval Let_def)
  show ?thesis
    unfolding scan_url_def k n by (simp add: p Let_def del: poll_loop.simps)
qed

subsection \<open>The rate limiter\<close>

lemma length_filter_mono:
  "(\<And>x. x \<in> set xs \<Longrightarrow> P x \<Longrightarrow> Q x) \<Longrightarrow> length (filter P xs) \<le> length (filter Q xs)"
proof (induction xs)
  case Nil
  show ?case by simp
next
  case (Cons a xs)
  have "length (filter P xs) \<le> length (filter Q xs)" using Cons.prems by (intro Cons.IH) auto
  moreover have "P a \<Longrightarrow> Q a" using Cons.prems by auto
  ultimately show ?case by auto
qed

lemma slept_nonneg: "0 \<le> slept ts now"
  by (simp add: slept_def split: option.splits)

lemma limiter_step:
  assumes inv: "limiter_inv prev ts hist"
    and clk: "prev \<le> now" "now + slept ts now \<le> stamp"
  shows "limiter_inv stamp (rate_limit_wait ts now stamp) (hist @ [stamp])"
proof -
  from inv obtain c where srt: "sorted hist" and le: "\<And>t. t \<in> set hist \<Longrightarrow> t \<le> prev"
    and c: "c \<le> prev" "ts = filter (\<lambda>t. c - t < RATE_WINDOW) hist"
    and win: "\<And>s. length (in_window s hist) \<le> 4"
    by (auto simp: limiter_inv_def list_all_iff)
  have now_stamp: "now \<le> stamp" using clk(2) slept_nonneg[of ts now] by linarith
  have P: "prune ts now = filter (\<lambda>t. now - t < RATE_WINDOW) hist"
    unfolding prune_def c(2) filter_filter
    by (rule filter_cong) (use c(1) clk(1) in auto)
  have a: "sorted (hist @ [stamp])"
    using srt le clk(1) now_stamp by (fastforce simp: sorted_append)
  have b: "list_all (\<lambda>t. t \<le> stamp) (hist @ [stamp])"
    using le clk(1) now_stamp by (fastforce simp: list_all_iff)
  have cc: "rate_limit_wait ts now stamp = filter (\<lambda>t. now - t < RATE_WINDOW) (hist @ [stamp])"
    using now_stamp by (simp add: rate_limit_wait_def P RATE_WINDOW_def)
  have d: "length (in_window s (hist @ [stamp])) \<le> 4" for s
  proof (cases "s \<le> stamp \<and> stamp < s + RATE_WINDOW")
    case False
    then have "in_window s (hist @ [stamp]) = in_window s hist" by (auto simp: in_window_def)
    then show ?thesis using win[of s] by simp
  next
    case True
    define K where "K = filter (\<lambda>t. stamp - t < RATE_WINDOW) hist"
    have wK: "length (in_window s hist) \<le> length K"
      unfolding in_window_def K_def by (rule length_filter_mono) (use True in auto)
    have KP: "K = filter (\<lambda>t. stamp - t < RATE_WINDOW) (prune ts now)"
      unfolding K_def P filter_filter by (rule filter_cong) (use now_stamp in auto)
    have K3: "length K \<le> 3"
    proof (cases "RATE_LIMIT \<le> length (prune ts now)")
      case False
      have "length K \<le> length (prune ts now)" unfolding KP by (rule length_filter_le)
      then show ?thesis using False by (simp add: RATE_LIMIT_def)
    next
      case full: True
      then obtain h tl where ht: "prune ts now = h # tl"
        by (cases "prune ts now") (auto simp: RATE_LIMIT_def)
      have "h \<in> set (filter (\<lambda>t. now - t < RATE_WINDOW) hist)"
        using ht P by (metis list.set_intros(1))
      then have hin: "h \<in> set hist" "now - h < RATE_WINDOW" by simp_all
      have sl: "slept ts now = RATE_WINDOW - (now - h) + 1 / 2"
        using full ht hin(2) by (simp add: slept_def sleep_time_def)
      then have far: "h + RATE_WINDOW + 1 / 2 \<le> stamp" using clk(2) by linarith
      have sp: "sorted (h # tl)" using srt ht[symmetric] P by (simp add: sorted_wrt_filter)
      have "length (prune ts now) \<le> length (in_window h hist)"
        unfolding P in_window_def
      proof (rule length_filter_mono)
        fix x assume x: "x \<in> set hist" "now - x < RATE_WINDOW"
        then have "x \<in> set (filter (\<lambda>t. now - t < RATE_WINDOW) hist)" by simp
        then have "x \<in> set (h # tl)" using P ht by simp
        then have "h \<le> x" using sp by auto
        moreover have "x < h + RATE_WINDOW" using le[OF x(1)] clk(1) hin(2) by linarith
        ultimately show "h \<le> x \<and> x < h + RATE_WINDOW" by simp
      qed
      then have len4: "length (prune ts now) \<le> 4" using win[of h] by linarith
      have "K = filter (\<lambda>t. stamp - t < RATE_WINDOW) tl"
        using far unfolding KP ht by (simp add: RATE_WINDOW_def)
      then have "length K \<le> length tl" by simp
      then show ?thesis using len4 ht by simp
    qed
    have "in_window s (hist @ [stamp]) = in_window s hist @ [stamp]"
      using True by (simp add: in_window_def)
    then show ?thesis using wK K3 by simp
  qed
  show ?thesis
    unfolding limiter_inv_def using a b cc d now_stamp by blast
qed

lemma limiter_run:
  "limiter_inv prev ts hist \<Longrightarrow> clock_ok prev ts rs \<Longrightarrow>
   sorted (hist @ admitted rs) \<and> (\<forall>s. length (in_window s (hist @ admitted rs)) \<le> 4)"
proof (induction rs arbitrary: prev ts hist)
  case Nil
  then show ?case by (simp add: admitted_def limiter_inv_def)
next
  case (Cons r rs)
  obtain now stamp where r: "r = (now, stamp)" by (cases r)
  have clk: "prev \<le> now" "now + slept ts now \<le> stamp"
    and rest: "clock_ok stamp (rate_limit_wait ts now stamp) rs"
    using Cons.prems(2) r by auto
  have "limiter_inv stamp (rate_limit_wait ts now stamp) (hist @ [stamp])"
    using Cons.prems(1) clk by (rule limiter_step)
  from Cons.IH[OF this rest] show ?case by (simp add: admitted_def r)
qed

lemma limiter_inv_init: "limiter_inv t0 [] []"
  by (auto simp: limiter_inv_def in_window_def)

lemma spaced:
  assumes srt: "sorted xs" and win: "length (in_window (xs ! i) xs) \<le> 4" and i: "i + 4 < length xs"
  shows "xs ! i + RATE_WINDOW \<le> xs ! (i + 4)"
proof (rule ccontr)
  assume "\<not> xs ! i + RATE_WINDOW \<le> xs ! (i + 4)"
  then have lt: "xs ! (i + 4) < xs ! i + RATE_WINDOW" by simp
  have sub: "{i..i + 4} \<subseteq> {j. j < length xs \<and> (xs ! i \<le> xs ! j \<and> xs ! j < xs ! i + RATE_WINDOW)}"
  proof
    fix j assume "j \<in> {i..i + 4}"
    then have j: "i \<le> j" "j \<le> i + 4" by auto
    have "xs ! i \<le> xs ! j" using srt j i by (intro sorted_nth_mono) auto
    moreover have "xs ! j \<le> xs ! (i + 4)" using srt j i by (intro sorted_nth_mono) auto
    ultimately show "j \<in> {j. j < length xs \<and> (xs ! i \<le> xs ! j \<and> xs ! j < xs ! i + RATE_WINDOW)}"
      using lt j i by auto
  qed
  have "card {i..i + 4} \<le> card {j. j < length xs \<and> (xs ! i \<le> xs ! j \<and> xs ! j < xs ! i + RATE_WINDOW)}"
    by (rule card_mono[OF _ sub]) simp
  then have "5 \<le> length (in_window (xs ! i) xs)"
    by (simp add: in_window_def length_filter_conv_card)
  then show False using win by simp
qed

text \<open>
  C6: in a run of acquisitions that starts with the empty list, with a clock that does not
  run backwards and sleeps that last as long as asked, no window \<open>[s, s + 60)\<close> holds the
  timestamps of more than 4 admissions, and of any five admissions in a row the fifth is
  stamped at least 60 seconds after the first: it waits until the first has left the
  window.
\<close>

theorem rate_limiter_window:
  assumes "clock_ok t0 [] rs"
  shows "length (in_window s (admitted rs)) \<le> 4
     \<and> (\<forall>i. i + 4 < length rs \<longrightarrow> admitted rs ! i + RATE_WINDOW \<le> admitted rs ! (i + 4))"
proof -
  have run: "sorted (admitted rs)" "\<And>s. length (in_window s (admitted rs)) \<le> 4"
    using limiter_run[OF limiter_inv_init assms] by simp_all
  have "admitted rs ! i + RATE_WINDOW \<le> admitted rs ! (i + 4)" if "i + 4 < length rs" for i
    using run(1) run(2)[of "admitted rs ! i"] that by (intro spaced) (simp_all add: admitted_def)
  then show ?thesis using run(2) by blast
qed

text \<open>
  C6 for four acquisitions one second apart, a fifth that sleeps 56.5 seconds until the
  first has left the window, and a sixth.
\<close>

theorem rate_limiter_window_witness:
  "clock_ok 0 [] [(0, 0), (1, 1), (2, 2), (3, 3), (4, 121 / 2), (70, 70)]
   \<and> slept [0, 1, 2, 3] 4 = 113 / 2
   \<and> admitted [(0, 0), (1, 1), (2, 2), (3, 3), (4, 121 / 2), (70, 70)] = [0, 1, 2, 3, 121 / 2, 70]
   \<and> length (in_window 1 (admitted [(0, 0), (1, 1), (2, 2), (3, 3), (4, 121 / 2), (70, 70)])) \<le> 4
   \<and> admitted [(0, 0), (1, 1), (2, 2), (3, 3), (4, 121 / 2), (70, 70)] ! 0 + RATE_WINDOW
       \<le> admitted [(0, 0), (1, 1), (2, 2), (3, 3), (4, 121 / 2), (70, 70)] ! (0 + 4)"
proof -
  let ?rs = "[(0, 0), (1, 1), (2, 2), (3, 3), (4, 121 / 2), (70, 70)] :: (real \<times> real) list"
  have ok: "clock_ok 0 [] ?rs"
    by (simp add: slept_def sleep_time_def prune_def rate_limit_wait_def RATE_LIMIT_def RATE_WINDOW_def)
  have sl: "slept [0, 1, 2, 3] 4 = 113 / 2"
    by (simp add: slept_def sleep_time_def prune_def RATE_LIMIT_def RATE_WINDOW_def)
  have ad: "admitted ?rs = [0, 1, 2, 3, 121 / 2, 70]" by (simp add: admitted_def)
  have "0 + 4 < length ?rs" by simp
  with rate_limiter_window[OF ok, of 1] show ?thesis using ok sl ad by blast
qed

subsection \<open>The scorer on a look-alike URL\<close>

text \<open>
  The host \<open>paypa1-secure-login.tk\<close> has 22 characters, four of them twice, so its entropy
  is \<open>log 2 22 - 4 / 11\<close>, about 4.096: the entropy check fires with a penalty of about 2.37.
\<close>

lemma log2_22_lower: "767 / 172 < log 2 22"
proof -
  have "(2::real) powr (767 / 172) < 22"
  proof -
    have "((2::real) powr (767 / 172)) ^ 172 = 2 powr 767" by (simp add: powr_power)
    also have "\<dots> = 2 ^ 767" by (simp add: powr_realpow[symmetric])
    also have "\<dots> < (22::real) ^ 172" by simp
    finally have "((2::real) powr (767 / 172)) ^ 172 < 22 ^ 172" .
    then show ?thesis by (rule power_less_imp_less_base) simp
  qed
  then show ?thesis using less_log_iff[of 2 22 "767 / 172"] by simp
qed

lemma log2_22_upper: "log 2 22 < 165 / 37"
proof -
  have "22 < (2::real) powr (165 / 37)"
  proof -
    have "((2::real) powr (165 / 37)) ^ 37 = 2 powr 165" by (simp add: powr_power)
    also have "\<dots> = 2 ^ 165" by (simp add: powr_realpow[symmetric])
    finally have "(22::real) ^ 37 < ((2::real) powr (165 / 37)) ^ 37" by simp
    then show ?thesis by (rule power_less_imp_less_base) simp
  qed
  then show ?thesis using log_less_iff[of 2 22 "165 / 37"] by simp
qed

lemma entropy_paypa1: "shannon_entropy (str ''paypa1-secure-login.tk'') = log 2 22 - 4 / 11"
proof -
  have a: "log 2 (1 / 22) = - log 2 22" by (simp add: log_divide)
  have b: "log 2 (1 / 11) = 1 - log 2 22"
  proof -
    have "log 2 (2 * 11) = log 2 2 + log 2 (11::real)" by (rule log_mult_pos) simp_all
    then have "log 2 11 = log 2 22 - 1" by simp
    then show ?thesis by (simp add: log_divide)
  qed
  have "shannon_entropy (str ''paypa1-secure-login.tk'')
      = 7 * log 2 22 / 11 - ((2 - 2 * log 2 22) / 22 + (6 - 6 * log 2 22) / 22)"
    by (simp add: shannon_entropy_def str_def a b)
  then show ?thesis by (simp add: field_simps)
qed

lemma parse_paypa1:
  "urlparse (prepared (str ''http://paypa1-secure-login.tk/verify/account/update'')) =
     Inr \<lparr> scheme = str ''http'', netloc = str ''paypa1-secure-login.tk'',
           path = str ''/verify/account/update'', params = [], query = [], fragment = [] \<rparr>"
  by (simp add: str_eval url_eval)

lemma keywords_paypa1: "check_keywords (str ''paypa1-secure-login.tk/verify/account/update'') =
   [(20, Suspicious_keywords (map str [''login'', ''verify'', ''secure'', ''account'', ''update'']) 20)]"
  by (simp add: heur_eval str_eval)

lemma brands_paypa1: "check_brands (str ''paypa1-secure-login.tk'') =
   [(8, Brand_spoofing [(str ''paypal'', Some (str ''paypa1''), 1)] 8)]"
  by (simp add: heur_eval str_eval upt_rec)

lemma tld_paypa1: "check_tld (str ''paypa1-secure-login.tk'') = [(8, High_risk_tld 8)]"
  by (simp add: heur_eval str_eval)

lemma hyphens_paypa1: "check_hyphens (str ''paypa1-secure-login.tk'') = [(6, Multiple_hyphens 2 6)]"
  by (simp add: heur_eval str_eval)

lemma silent_paypa1: "check_domain_length (str ''paypa1-secure-login.tk'') = []
  \<and> check_ip (str ''paypa1-secure-login.tk'') = []
  \<and> check_subdomains (str ''paypa1-secure-login.tk'') = []
  \<and> check_homographs (str ''paypa1-secure-login.tk'') = []
  \<and> check_https (str ''http'') = [(5, No_https)]
  \<and> check_path_depth (str ''/verify/account/update'') = []
  \<and> check_at_sign (str ''http://paypa1-secure-login.tk/verify/account/update'') = []
  \<and> check_digit_ratio (str ''paypa1-secure-login.tk'') = []"
  by (simp add: heur_eval str_eval ipv4_groups_3)

lemma entropy_check_paypa1: "check_entropy (str ''paypa1-secure-login.tk'') =
   [((shannon_entropy (str ''paypa1-secure-login.tk'') - 3.8) * 8,
     High_entropy (shannon_entropy (str ''paypa1-secure-login.tk''))
       ((shannon_entropy (str ''paypa1-secure-login.tk'') - 3.8) * 8))]"
  using log2_22_lower log2_22_upper by (simp add: check_entropy_def entropy_paypa1)

lemma host_paypa1:
  "host_of \<lparr> scheme = str ''http'', netloc = str ''paypa1-secure-login.tk'',
           path = str ''/verify/account/update'', params = [], query = [], fragment = [] \<rparr>
   = str ''paypa1-secure-login.tk''"
  by (simp add: str_eval url_eval)

lemma prepared_paypa1:
  "prepared (str ''http://paypa1-secure-login.tk/verify/account/update'')
   = str ''http://paypa1-secure-login.tk/verify/account/update''"
  by (simp add: str_eval url_eval)

lemma findings_paypa1:
  "findings (str ''http://paypa1-secure-login.tk/verify/account/update'')
     \<lparr> scheme = str ''http'', netloc = str ''paypa1-secure-login.tk'',
       path = str ''/verify/account/update'', params = [], query = [], fragment = [] \<rparr> =
   [((shannon_entropy (str ''paypa1-secure-login.tk'') - 3.8) * 8,
     High_entropy (shannon_entropy (str ''paypa1-secure-login.tk''))
       ((shannon_entropy (str ''paypa1-secure-login.tk'') - 3.8) * 8)),
    (6, Multiple_hyphens 2 6),
    (20, Suspicious_keywords (map str [''login'', ''verify'', ''secure'', ''account'', ''update'']) 20),
    (8, High_risk_tld 8),
    (8, Brand_spoofing [(str ''paypal'', Some (str ''paypa1''), 1)] 8),
    (5, No_https)]"
proof -
  have full: "str ''paypa1-secure-login.tk'' @ str ''/verify/account/update''
     = str ''paypa1-secure-login.tk/verify/account/update''" by (simp add: str_def)
  show ?thesis
    unfolding findings_def host_paypa1 parse_result.simps full keywords_paypa1 brands_paypa1 tld_paypa1 hyphens_paypa1 entropy_check_paypa1
    using silent_paypa1 by simp
qed

lemma score_paypa1:
  "clamped_score (str ''http://paypa1-secure-login.tk/verify/account/update'')
     \<lparr> scheme = str ''http'', netloc = str ''paypa1-secure-login.tk'',
       path = str ''/verify/account/update'', params = [], query = [], fragment = [] \<rparr>
   = 47 + (log 2 22 - 4 / 11 - 3.8) * 8"
  using log2_22_lower log2_22_upper
  by (simp add: clamped_score_def findings_paypa1 entropy_paypa1)

lemma round_paypa1: "py_round (47 + (log 2 22 - 4 / 11 - 3.8) * 8) 2 = 4937 / 100"
proof -
  define y where "y = (47 + (log 2 22 - 4 / 11 - 3.8) * 8) * 10 ^ 2"
  have lo: "4936 + 1 / 2 < y" using log2_22_lower by (simp add: y_def)
  have hi: "y < 4937" using log2_22_upper by (simp add: y_def)
  have fl: "\<lfloor>y\<rfloor> = 4936" using lo hi by (intro floor_unique) simp_all
  show ?thesis
    unfolding py_round_def Let_def y_def[symmetric] fl using lo by simp
qed

lemma analyze_paypa1:
  "analyze_url (str ''http://paypa1-secure-login.tk/verify/account/update'') =
     Inr \<lparr> risk_score = 4937 / 100,
           classification = Suspicious,
           confidence = 3 / 4,
           reasoning =
             [High_entropy (shannon_entropy (str ''paypa1-secure-login.tk''))
                ((shannon_entropy (str ''paypa1-secure-login.tk'') - 3.8) * 8),
              Multiple_hyphens 2 6,
              Suspicious_keywords (map str [''login'', ''verify'', ''secure'', ''account'', ''update'']) 20,
              High_risk_tld 8,
              Brand_spoofing [(str ''paypal'', Some (str ''paypa1''), 1)] 8,
              No_https],
           engine = Heuristic_engine,
           features = Features (extract_features (str ''http://paypa1-secure-login.tk/verify/account/update'')
             \<lparr> scheme = str ''http'', netloc = str ''paypa1-secure-login.tk'',
               path = str ''/verify/account/update'', params = [], query = [], fragment = [] \<rparr>),
           api_used = None,
           raw_stats = None \<rparr>"
proof -
  have c: "py_round (min (0.5 + real (6::nat) / 12 * 0.5) 1) 3 = 3 / 4"
    by (simp add: py_round_def Let_def)
  have s: "(47 + (log 2 22 - 4 / 11 - 3.8) * 8 < 30) = False"
       "(47 + (log 2 22 - 4 / 11 - 3.8) * 8 < 65) = True"
    using log2_22_lower log2_22_upper by simp_all
  show ?thesis
    unfolding analyze_url_def parse_paypa1[unfolded prepared_paypa1] prepared_paypa1 sum.case Let_def
      score_paypa1 findings_paypa1 round_paypa1 s
    using c by simp
qed

text \<open>
  C3, as stated, fails: the URL is not classified as Phishing and its risk score is not 65
  or more.
\<close>

theorem paypa1_url_not_phishing_counterexample:
  "\<not> (case analyze_url (str ''http://paypa1-secure-login.tk/verify/account/update'') of
         Inl e \<Rightarrow> False
       | Inr r \<Rightarrow> classification r = Phishing \<and> 65 \<le> risk_score r)"
  by (simp add: analyze_paypa1)

text \<open>
  C3, amended: scoring \<open>http://paypa1-secure-login.tk/verify/account/update\<close> fires the
  suspicious-keyword check (five keywords, 20), the brand-spoofing check (8) and the
  high-risk-TLD check (8), and besides them the entropy, hyphen and no-HTTPS checks; the
  result classifies as Suspicious with risk score 49.37.
\<close>

theorem paypa1_url_is_suspicious:
  "case analyze_url (str ''http://paypa1-secure-login.tk/verify/account/update'') of
     Inl e \<Rightarrow> False
   | Inr r \<Rightarrow>
       classification r = Suspicious \<and> risk_score r = 4937 / 100
       \<and> reasoning r =
             [High_entropy (shannon_entropy (str ''paypa1-secure-login.tk''))
                ((shannon_entropy (str ''paypa1-secure-login.tk'') - 3.8) * 8),
              Multiple_hyphens 2 6,
              Suspicious_keywords (map str [''login'', ''verify'', ''secure'', ''account'', ''update'']) 20,
              High_risk_tld 8,
              Brand_spoofing [(str ''paypal'', Some (str ''paypa1''), 1)] 8,
              No_https]"
  by (simp add: analyze_paypa1)

subsection \<open>Where normalization returns\<close>

lemma urlparse_http:
  "urlparse (str ''http://'' @ t) =
     split_rest (str ''http'') (takeWhile (\<lambda>c. \<not> is_netloc_delim c) (unsafe_removed t))
       (dropWhile (\<lambda>c. \<not> is_netloc_delim c) (unsafe_removed t))"
  by (simp add: urlparse_def unsafe_removed_def split_scheme_def splitnetloc_def str_eval Let_def)

lemma urlparse_https:
  "urlparse (str ''https://'' @ t) =
     split_rest (str ''https'') (takeWhile (\<lambda>c. \<not> is_netloc_delim c) (unsafe_removed t))
       (dropWhile (\<lambda>c. \<not> is_netloc_delim c) (unsafe_removed t))"
  by (simp add: urlparse_def unsafe_removed_def split_scheme_def splitnetloc_def str_eval Let_def)

lemma startswith_split: "startswith s p \<Longrightarrow> s = p @ drop (length p) s"
  by (metis append_take_drop_id startswith_def)

lemma add_scheme_cases:
  obtains t where "add_scheme s = str ''http://'' @ t" "\<not> startswith (add_scheme s) (str ''https://'')"
  | t where "add_scheme s = str ''https://'' @ t"
proof (cases "startswith s (str ''https://'')")
  case True
  then have "s = str ''https://'' @ drop (length (str ''https://'')) s" by (rule startswith_split)
  then show ?thesis using True that(2) by (simp add: add_scheme_def)
next
  case False
  show ?thesis
  proof (cases "startswith s (str ''http://'')")
    case True
    have "s = str ''http://'' @ drop (length (str ''http://'')) s" using True by (rule startswith_split)
    then show ?thesis using True False that(1) by (simp add: add_scheme_def)
  next
    case nh: False
    have "\<not> startswith (str ''http://'' @ s) (str ''https://'')"
      by (simp add: startswith_def str_def)
    then show ?thesis using nh False that(1)[of s] by (simp add: add_scheme_def)
  qed
qed

lemma urlparse_add_scheme:
  "urlparse (add_scheme s) =
     split_rest (if startswith (add_scheme s) (str ''https://'') then str ''https'' else str ''http'')
       (takeWhile (\<lambda>c. \<not> is_netloc_delim c)
          (unsafe_removed (drop (if startswith (add_scheme s) (str ''https://'') then 8 else 7) (add_scheme s))))
       (dropWhile (\<lambda>c. \<not> is_netloc_delim c)
          (unsafe_removed (drop (if startswith (add_scheme s) (str ''https://'') then 8 else 7) (add_scheme s))))"
proof (cases s rule: add_scheme_cases)
  case (1 t)
  have "drop 7 (str ''http://'' @ t) = t" by (simp add: str_def)
  then show ?thesis using 1 by (simp add: urlparse_http)
next
  case (2 t)
  have d: "drop 8 (str ''https://'' @ t) = t" by (simp add: str_def)
  have st: "startswith (str ''https://'' @ t) (str ''https://'')" by (simp add: startswith_def str_def)
  show ?thesis unfolding 2 using d st by (simp add: urlparse_https)
qed

lemma split_rest_cases:
  "split_rest sch nl url3 = Inl ValueError \<and> \<not> brackets_balanced nl
   \<or> (\<exists>p. split_rest sch nl url3 = Inr p \<and> netloc p = nl \<and> scheme p = sch \<and> brackets_balanced nl)"
  by (auto simp: split_rest_def brackets_balanced_def Let_def split: prod.splits)

text \<open>
  C7, as stated, fails: normalization raises \<open>ValueError\<close> on \<open>a:b\<close>, whose port is not
  a number.
\<close>

theorem normalize_url_not_total_counterexample:
  "normalize_url (str ''a:b'') = Inl ValueError"
  by (simp add: normalize_url_def str_eval url_eval)

text \<open>
  C7, amended: normalization is not total. It raises \<open>ValueError\<close> whenever the authority
  of the input has unbalanced square brackets or a port that is not a decimal number of at
  most 65535 in at most 4300 digits; it returns a string for every ASCII input whose
  authority has no square bracket and whose port is empty or such a number; and it raises
  no other exception than \<open>ValueError\<close>.
\<close>

theorem normalize_url_returns:
  "(\<not> brackets_balanced (authority u) \<or> \<not> port_ok (authority u) \<longrightarrow> normalize_url u = Inl ValueError)
   \<and> (list_all is_ascii u \<and> 91 \<notin> set (authority u) \<and> 93 \<notin> set (authority u) \<and> port_ok (authority u)
        \<longrightarrow> (\<exists>s. normalize_url u = Inr s))
   \<and> (\<forall>e. normalize_url u = Inl e \<longrightarrow> e = ValueError)"
proof -
  let ?v = "add_scheme (strip u)"
  let ?sch = "if startswith ?v (str ''https://'') then str ''https'' else str ''http''"
  let ?k = "if startswith ?v (str ''https://'') then 8 else 7 :: nat"
  let ?r = "unsafe_removed (drop ?k ?v)"
  have nl: "authority u = takeWhile (\<lambda>c. \<not> is_netloc_delim c) ?r"
    by (simp add: authority_def Let_def)
  have up: "urlparse ?v = split_rest ?sch (authority u) (dropWhile (\<lambda>c. \<not> is_netloc_delim c) ?r)"
    unfolding nl by (rule urlparse_add_scheme)
  from split_rest_cases[of ?sch "authority u" "dropWhile (\<lambda>c. \<not> is_netloc_delim c) ?r"]
  show ?thesis
  proof (elim disjE conjE exE)
    assume "split_rest ?sch (authority u) (dropWhile (\<lambda>c. \<not> is_netloc_delim c) ?r) = Inl ValueError"
      and "\<not> brackets_balanced (authority u)"
    then show ?thesis by (auto simp: normalize_url_def up brackets_balanced_def)
  next
    fix p
    assume p: "split_rest ?sch (authority u) (dropWhile (\<lambda>c. \<not> is_netloc_delim c) ?r) = Inr p"
      and n: "netloc p = authority u" and b: "brackets_balanced (authority u)"
    show ?thesis
    proof (cases "port_ok (authority u)")
      case True
      then have "\<exists>po. port p = Inr po" by (auto simp: port_def port_ok_def n Let_def)
      then show ?thesis using True b by (auto simp: normalize_url_def up p Let_def)
    next
      case False
      then have "port p = Inl ValueError"
        by (auto simp: port_def port_ok_def n Let_def int_of_str_def)
      then show ?thesis using False by (simp add: normalize_url_def up p Let_def)
    qed
  qed
qed

text \<open>
  C7 at \<open>Example.com:8080/a/\<close>, which normalizes, at \<open>http://\<close>, whose missing host
  becomes the empty string, and at \<open>a:b\<close> and \<open>[\<close>, on which normalization raises.
\<close>

theorem normalize_url_returns_witness:
  "list_all is_ascii (str ''Example.com:8080/a/'')
   \<and> 91 \<notin> set (authority (str ''Example.com:8080/a/''))
   \<and> 93 \<notin> set (authority (str ''Example.com:8080/a/''))
   \<and> port_ok (authority (str ''Example.com:8080/a/''))
   \<and> (\<exists>s. normalize_url (str ''Example.com:8080/a/'') = Inr s)
   \<and> normalize_url (str ''Example.com:8080/a/'') = Inr (str ''http://example.com:8080/a'')
   \<and> normalize_url (str ''http://'') = Inr (str ''http:///'')
   \<and> \<not> port_ok (authority (str ''a:b''))
   \<and> normalize_url (str ''a:b'') = Inl ValueError
   \<and> \<not> brackets_balanced (authority (str ''[''))
   \<and> normalize_url (str ''['') = Inl ValueError"
proof -
  have a: "authority (str ''Example.com:8080/a/'') = str ''Example.com:8080''"
    by (simp add: authority_def str_eval url_eval)
  have asc: "list_all is_ascii (str ''Example.com:8080/a/'')" by (simp add: str_def is_ascii_def)
  have b: "91 \<notin> set (str ''Example.com:8080'')" "93 \<notin> set (str ''Example.com:8080'')"
    by (simp_all add: str_def)
  have c: "port_ok (str ''Example.com:8080'')" by (simp add: port_ok_def str_eval url_eval)
  have d: "normalize_url (str ''Example.com:8080/a/'') = Inr (str ''http://example.com:8080/a'')"
    by (simp add: normalize_url_def str_eval url_eval str_of_nat.simps)
  have e: "normalize_url (str ''http://'') = Inr (str ''http:///'')"
    by (simp add: normalize_url_def str_eval url_eval)
  have f: "authority (str ''a:b'') = str ''a:b''" by (simp add: authority_def str_eval url_eval)
  have g: "\<not> port_ok (str ''a:b'')" by (simp add: port_ok_def str_eval url_eval)
  have h: "authority (str ''['') = str ''[''" by (simp add: authority_def str_eval url_eval)
  have i: "\<not> brackets_balanced (str ''['')" by (simp add: brackets_balanced_def str_def)
  show ?thesis
    using normalize_url_returns[of "str ''Example.com:8080/a/''"]
      normalize_url_returns[of "str ''a:b''"] normalize_url_returns[of "str ''[''"]
      a asc b c d e f g h i
    by simp
qed

subsection \<open>The orchestrator's fallback to the heuristic scorer\<close>

text \<open>The scorer decodes \<open>%5B\<close> to a square bracket before it parses; the client does not.\<close>

lemma unquote_bytes_pct: "unquote_to_bytes (str ''%5B'') = [91]"
  by (simp add: str_def is_hex_def hexval_def is_ascii_digit_def)

lemma unquote_pct: "unquote (str ''%5B'') = [91]"
proof -
  have "unquote (str ''%5B'') = unquote_runs [] (str ''%5B'')" by (simp add: unquote_def str_def)
  also have "\<dots> = utf8_decode (unquote_to_bytes (str ''%5B''))" by (simp add: str_def)
  also have "\<dots> = [91]" unfolding unquote_bytes_pct by simp
  finally show ?thesis .
qed

lemma prepared_pct: "prepared (str ''%5B'') = str ''http://[''"
  unfolding prepared_def unquote_pct by (simp add: str_eval)

lemma analyze_pct: "analyze_url (str ''%5B'') = Inl ValueError"
  unfolding analyze_url_def prepared_pct by (simp add: str_eval url_eval)

lemma normalize_pct: "normalize_url (str ''%5B'') = Inr (str ''http://%5b/'')"
  by (simp add: normalize_url_def str_eval url_eval)

text \<open>
  C4, as stated, fails: with a credential, a submission that fails in the network and no
  statistical model, the client raises its network error on the URL \<open>%5B\<close>, the scorer
  raises \<open>ValueError\<close> on that URL, and the orchestrator returns the error result, which
  has the classification Error and no \<open>api_used\<close> entry.
\<close>

theorem run_scan_fallback_counterexample:
  "api_key_available \<lparr> env_api_key = str ''0123456789abcdef0123456789abcdef'',
        submit_reply = (\<lambda>u. Submit_network_error),
        poll_reply = (\<lambda>k. Poll_network_error), ml_model_available = False,
        ml_predict = (\<lambda>u. Inr None), insert_scan_raises = False \<rparr>
   \<and> snd (scan_url \<lparr> env_api_key = str ''0123456789abcdef0123456789abcdef'',
        submit_reply = (\<lambda>u. Submit_network_error),
        poll_reply = (\<lambda>k. Poll_network_error), ml_model_available = False,
        ml_predict = (\<lambda>u. Inr None), insert_scan_raises = False \<rparr> (str ''%5B'')) = Inl RuntimeError_network
   \<and> analyze_url (str ''%5B'') = Inl ValueError
   \<and> run_scan \<lparr> env_api_key = str ''0123456789abcdef0123456789abcdef'',
        submit_reply = (\<lambda>u. Submit_network_error),
        poll_reply = (\<lambda>k. Poll_network_error), ml_model_available = False,
        ml_predict = (\<lambda>u. Inr None), insert_scan_raises = False \<rparr> (str ''%5B'')
       = \<lparr> risk_score = 0, classification = Error, confidence = 0,
           reasoning = [Exception_text ValueError], engine = Engine_na, features = Empty_features,
           api_used = None, raw_stats = None \<rparr>"
proof -
  let ?e = "\<lparr> env_api_key = str ''0123456789abcdef0123456789abcdef'',
        submit_reply = (\<lambda>u. Submit_network_error),
        poll_reply = (\<lambda>k. Poll_network_error), ml_model_available = False,
        ml_predict = (\<lambda>u. Inr None), insert_scan_raises = False \<rparr>"
  have k: "get_api_key ?e = Some (str ''0123456789abcdef0123456789abcdef'')"
    by (simp add: get_api_key_def str_eval Let_def)
  have a: "api_key_available ?e" unfolding api_key_available_def k by (simp add: str_def)
  have s: "snd (scan_url ?e (str ''%5B'')) = Inl RuntimeError_network"
    unfolding scan_url_def k normalize_pct by (simp add: Let_def)
  have r: "run_scan ?e (str ''%5B'') = error_result ValueError"
    unfolding run_scan_def ml_stage_def api_stage_def heuristic_stage_def
    using a s by (simp add: analyze_pct)
  show ?thesis using a s r by (simp add: analyze_pct error_result_def)
qed

text \<open>
  C4, amended: if the reputation client raises an error, one of its defined errors or any
  other, and no statistical model is available, then the orchestrator's result is the
  result of the heuristic scorer for that URL with \<open>api_used\<close> set to false, provided
  that the scorer returns and that storing the scan does not raise; if the scorer raises,
  or storing the scan raises, the result is the error result.
\<close>

theorem run_scan_fallback:
  assumes "snd (scan_url env url) = Inl e"
    and "\<not> ml_model_available env"
  shows "run_scan env url =
     (case analyze_url url of
        Inl e' \<Rightarrow> error_result e'
      | Inr r \<Rightarrow> if insert_scan_raises env then error_result Collaborator_failure
                 else r\<lparr>api_used := Some False\<rparr>)"
proof -
  have "api_stage env url = None" using assms(1) by (simp add: api_stage_def)
  then have "ml_stage env url (api_stage env url) = Inr None" using assms(2) by (simp add: ml_stage_def)
  then show ?thesis by (simp add: run_scan_def heuristic_stage_def split: sum.splits)
qed

text \<open>
  C4 at the URL \<open>cafe\<close>, with a credential and a submission that fails in the network:
  the result is the scorer's, with \<open>api_used\<close> false.
\<close>

theorem run_scan_fallback_witness:
  "api_key_available \<lparr> env_api_key = str ''0123456789abcdef0123456789abcdef'',
        submit_reply = (\<lambda>u. Submit_network_error),
        poll_reply = (\<lambda>k. Poll_network_error), ml_model_available = False,
        ml_predict = (\<lambda>u. Inr None), insert_scan_raises = False \<rparr>
   \<and> snd (scan_url \<lparr> env_api_key = str ''0123456789abcdef0123456789abcdef'',
        submit_reply = (\<lambda>u. Submit_network_error),
        poll_reply = (\<lambda>k. Poll_network_error), ml_model_available = False,
        ml_predict = (\<lambda>u. Inr None), insert_scan_raises = False \<rparr> (str ''cafe'')) = Inl RuntimeError_network
   \<and> run_scan \<lparr> env_api_key = str ''0123456789abcdef0123456789abcdef'',
        submit_reply = (\<lambda>u. Submit_network_error),
        poll_reply = (\<lambda>k. Poll_network_error), ml_model_available = False,
        ml_predict = (\<lambda>u. Inr None), insert_scan_raises = False \<rparr> (str ''cafe'')
       = \<lparr> risk_score = 20, classification = Safe, confidence = 583 / 1000,
           reasoning = [Raw_ip_address, No_https], engine = Heuristic_engine,
           features = Features (extract_features (str ''http://cafe'')
             \<lparr> scheme = str ''http'', netloc = str ''cafe'', path = [], params = [], query = [], fragment = [] \<rparr>),
           api_used = Some False, raw_stats = None \<rparr>"
proof -
  let ?e = "\<lparr> env_api_key = str ''0123456789abcdef0123456789abcdef'',
        submit_reply = (\<lambda>u. Submit_network_error),
        poll_reply = (\<lambda>k. Poll_network_error), ml_model_available = False,
        ml_predict = (\<lambda>u. Inr None), insert_scan_raises = False \<rparr>"
  have k: "get_api_key ?e = Some (str ''0123456789abcdef0123456789abcdef'')"
    by (simp add: get_api_key_def str_eval Let_def)
  have a: "api_key_available ?e" unfolding api_key_available_def k by (simp add: str_def)
  have n: "normalize_url (str ''cafe'') = Inr (str ''http://cafe/'')"
    by (simp add: normalize_url_def str_eval url_eval)
  have s: "snd (scan_url ?e (str ''cafe'')) = Inl RuntimeError_network"
    unfolding scan_url_def k n by (simp add: Let_def)
  have m: "\<not> ml_model_available ?e" by simp
  show ?thesis using run_scan_fallback[OF s m] a s by (simp add: analyze_cafe)
qed

subsection \<open>The port in the normalized URL\<close>

text \<open>
  A URL that is written as a scheme, a host, a port and a path is parsed back into these
  parts.
\<close>

declare str_of_nat.simps [simp del]

lemma strip_id: "s \<noteq> [] \<Longrightarrow> \<not> isspace (hd s) \<Longrightarrow> \<not> isspace (last s) \<Longrightarrow> strip s = s"
proof -
  assume a: "s \<noteq> []" "\<not> isspace (hd s)" "\<not> isspace (last s)"
  have 1: "dropWhile isspace s = s" using a(1,2) by (cases s) auto
  have "rev s \<noteq> []" "\<not> isspace (hd (rev s))" using a(1,3) by (simp_all add: hd_rev)
  then have 2: "dropWhile isspace (rev s) = rev s" by (cases "rev s") auto
  show ?thesis by (simp add: strip_def 1 2)
qed

lemma str_of_nat_digits: "list_all is_ascii_digit (str_of_nat n)"
proof (induction n rule: str_of_nat.induct)
  case (1 n)
  show ?case
  proof (cases "n < 10")
    case True
    then show ?thesis by (subst str_of_nat.simps) (simp add: is_ascii_digit_def)
  next
    case False
    have "n mod 10 < 10" by simp
    then have "is_ascii_digit (48 + n mod 10)" unfolding is_ascii_digit_def by linarith
    then show ?thesis using False 1 by (subst str_of_nat.simps) simp
  qed
qed

lemma str_of_nat_nonempty: "str_of_nat n \<noteq> []"
  by (subst str_of_nat.simps) simp

lemma str_of_nat_length: "n < 10 ^ k \<Longrightarrow> 0 < k \<Longrightarrow> length (str_of_nat n) \<le> k"
proof (induction n arbitrary: k rule: str_of_nat.induct)
  case (1 n)
  show ?case
  proof (cases "n < 10")
    case True
    then show ?thesis using 1(3) by (subst str_of_nat.simps) simp
  next
    case False
    obtain j where k: "k = Suc j" using 1(3) by (cases k) auto
    have j0: "0 < j" using False 1(2) k by (cases j) auto
    have "n div 10 < 10 ^ j" using 1(2) k by (simp add: less_mult_imp_div_less mult.commute)
    then have "length (str_of_nat (n div 10)) \<le> j" using 1(1)[OF False _ j0] by simp
    then show ?thesis using False k by (subst str_of_nat.simps) simp
  qed
qed

lemma int_of_str_snoc: "int_of_str (s @ [d]) = 10 * int_of_str s + (d - 48)"
  by (simp add: int_of_str_def)

lemma int_of_str_of_nat: "int_of_str (str_of_nat n) = n"
proof (induction n rule: str_of_nat.induct)
  case (1 n)
  show ?case
  proof (cases "n < 10")
    case True
    then show ?thesis by (subst str_of_nat.simps) (simp add: int_of_str_def)
  next
    case False
    then have "int_of_str (str_of_nat (n div 10)) = n div 10" using 1 by simp
    then show ?thesis using False
      by (subst str_of_nat.simps) (simp add: int_of_str_snoc)
  qed
qed

lemma lower_hostname_text: "lower (lower (before 37 h) @ dropWhile (\<lambda>c. c \<noteq> 37) h) = lower h"
proof -
  have "lower (lower (before 37 h) @ dropWhile (\<lambda>c. c \<noteq> 37) h)
      = lower (before 37 h) @ lower (dropWhile (\<lambda>c. c \<noteq> 37) h)"
    by (simp add: lower_def lower_char_def)
  also have "\<dots> = lower (before 37 h @ dropWhile (\<lambda>c. c \<noteq> 37) h)" by (simp add: lower_def)
  finally show ?thesis by (simp add: before_def)
qed

lemma hostinfo_port:
  assumes "\<And>c. c \<in> set h \<Longrightarrow> c \<noteq> 58 \<and> c \<noteq> 64 \<and> c \<noteq> 91"
  shows "hostinfo (h @ 58 # str_of_nat n) = (h, str_of_nat n)"
proof -
  let ?a = "h @ 58 # str_of_nat n"
  have d: "\<And>c. c \<in> set (str_of_nat n) \<Longrightarrow> c \<noteq> 64 \<and> c \<noteq> 91"
    using str_of_nat_digits[of n] by (auto simp: list_all_iff is_ascii_digit_def)
  have no: "64 \<notin> set ?a" "91 \<notin> set ?a" using assms d by auto
  have "\<forall>c\<in>set (rev ?a). c \<noteq> 64" using no(1) by (metis set_rev)
  then have "takeWhile (\<lambda>c. c \<noteq> 64) (rev ?a) = rev ?a" by (rule takeWhile_eq_all_conv[THEN iffD2])
  then have hi: "rev (takeWhile (\<lambda>c. c \<noteq> 64) (rev ?a)) = ?a" by (simp only: rev_rev_ident)
  have b: "before 58 ?a = h"
    unfolding before_def using assms by (simp add: takeWhile_append2)
  have a: "after 58 ?a = str_of_nat n"
    unfolding after_def using assms by (simp add: dropWhile_append2)
  show ?thesis
    unfolding hostinfo_def Let_def hi using no(2) a b by simp
qed

lemma split_rest_plain:
  assumes "91 \<notin> set a" "93 \<notin> set a" "35 \<notin> set pa" "63 \<notin> set pa" "59 \<notin> set pa"
  shows "split_rest sch a pa =
     Inr \<lparr> scheme = sch, netloc = a, path = pa, params = [], query = [], fragment = [] \<rparr>"
  using assms by (simp add: split_rest_def Let_def)

lemma splitnetloc_printed:
  assumes nd: "\<And>c. c \<in> set a \<Longrightarrow> \<not> is_netloc_delim c"
    and pa: "pa = [] \<or> hd pa = 47"
  shows "takeWhile (\<lambda>c. \<not> is_netloc_delim c) (a @ pa) = a"
    and "dropWhile (\<lambda>c. \<not> is_netloc_delim c) (a @ pa) = pa"
proof -
  have d47: "is_netloc_delim 47" by (simp add: is_netloc_delim_def)
  have p: "takeWhile (\<lambda>c. \<not> is_netloc_delim c) pa = []" "dropWhile (\<lambda>c. \<not> is_netloc_delim c) pa = pa"
    using pa d47 by (cases pa; simp)+
  have "takeWhile (\<lambda>c. \<not> is_netloc_delim c) (a @ pa) = a @ takeWhile (\<lambda>c. \<not> is_netloc_delim c) pa"
    by (rule takeWhile_append2) (rule nd)
  then show "takeWhile (\<lambda>c. \<not> is_netloc_delim c) (a @ pa) = a" by (simp add: p)
  have "dropWhile (\<lambda>c. \<not> is_netloc_delim c) (a @ pa) = dropWhile (\<lambda>c. \<not> is_netloc_delim c) pa"
    by (rule dropWhile_append2) (rule nd)
  then show "dropWhile (\<lambda>c. \<not> is_netloc_delim c) (a @ pa) = pa" by (simp add: p)
qed

lemma urlparse_printed:
  assumes sch: "sch = str ''http'' \<or> sch = str ''https''"
    and a: "\<And>c. c \<in> set a \<Longrightarrow> \<not> is_netloc_delim c \<and> c \<noteq> 9 \<and> c \<noteq> 10 \<and> c \<noteq> 13 \<and> c \<noteq> 91 \<and> c \<noteq> 93"
    and pa: "pa = [] \<or> hd pa = 47"
      "\<And>c. c \<in> set pa \<Longrightarrow> c \<noteq> 9 \<and> c \<noteq> 10 \<and> c \<noteq> 13 \<and> c \<noteq> 35 \<and> c \<noteq> 59 \<and> c \<noteq> 63"
  shows "urlparse (sch @ str ''://'' @ a @ pa) =
     Inr \<lparr> scheme = sch, netloc = a, path = pa, params = [], query = [], fragment = [] \<rparr>"
proof -
  have "\<And>c. c \<in> set (a @ pa) \<Longrightarrow> c \<noteq> 9 \<and> c \<noteq> 13 \<and> c \<noteq> 10" using a pa(2) by auto
  then have u: "unsafe_removed (a @ pa) = a @ pa" by (simp add: unsafe_removed_def)
  have nd: "\<And>c. c \<in> set a \<Longrightarrow> \<not> is_netloc_delim c" using a by simp
  note sp = splitnetloc_printed[OF nd pa(1)]
  have r: "split_rest sch a pa =
     Inr \<lparr> scheme = sch, netloc = a, path = pa, params = [], query = [], fragment = [] \<rparr>"
    using a pa(2) by (intro split_rest_plain) auto
  from sch show ?thesis
  proof
    assume s: "sch = str ''http''"
    have e: "sch @ str ''://'' @ a @ pa = str ''http://'' @ (a @ pa)" by (simp add: s str_def)
    have "urlparse (str ''http://'' @ (a @ pa)) = split_rest (str ''http'') a pa"
      by (simp only: urlparse_http u sp)
    then show ?thesis unfolding e using r s by simp
  next
    assume s: "sch = str ''https''"
    have e: "sch @ str ''://'' @ a @ pa = str ''https://'' @ (a @ pa)" by (simp add: s str_def)
    have "urlparse (str ''https://'' @ (a @ pa)) = split_rest (str ''https'') a pa"
      by (simp only: urlparse_https u sp)
    then show ?thesis unfolding e using r s by simp
  qed
qed

text \<open>
  C9, as stated, fails: port 443 is dropped from an http URL and port 80 from an https
  URL.
\<close>

theorem normalize_url_port_counterexample:
  "normalize_url (str ''http://a:443/'') = Inr (str ''http://a/'')
   \<and> normalize_url (str ''https://a:80/'') = Inr (str ''https://a/'')"
  by (simp add: normalize_url_def str_eval url_eval)

text \<open>
  C9, amended: for a URL with the scheme http or https, an ASCII host, a port of at most
  65535 and a path without query, fragment and parameters, normalization drops the port
  exactly when it is 0, 80 or 443, whatever the scheme, and keeps every other port in
  decimal; the scheme stays, the host is lowercased and the trailing slashes of the path
  are removed.
\<close>

theorem normalize_url_port:
  assumes sch: "sch = str ''http'' \<or> sch = str ''https''"
    and h: "list_all (\<lambda>c. is_ascii c \<and> c \<notin> {9, 10, 13, 35, 47, 58, 63, 64, 91, 93}) h"
    and n: "n \<le> 65535"
    and pa: "pa = [] \<or> hd pa = 47 \<and> \<not> isspace (last pa)"
      "list_all (\<lambda>c. c \<notin> {9, 10, 13, 35, 59, 63}) pa"
  shows "normalize_url (sch @ str ''://'' @ h @ 58 # str_of_nat n @ pa)
       = Inr (sch @ str ''://'' @ lower h
              @ (if n = 0 \<or> n = 80 \<or> n = 443 then [] else 58 # str_of_nat n)
              @ (if rstrip_char 47 pa = [] then [47] else rstrip_char 47 pa))"
proof -
  let ?a = "h @ 58 # str_of_nat n"
  let ?u = "sch @ str ''://'' @ ?a @ pa"
  let ?p = "\<lparr> scheme = sch, netloc = ?a, path = pa, params = [], query = [], fragment = [] \<rparr>"
  have hc: "\<And>c. c \<in> set h \<Longrightarrow> \<not> is_netloc_delim c \<and> c \<noteq> 9 \<and> c \<noteq> 10 \<and> c \<noteq> 13 \<and> c \<noteq> 91 \<and> c \<noteq> 93
              \<and> c \<noteq> 58 \<and> c \<noteq> 64"
    using h by (auto simp: list_all_iff is_netloc_delim_def)
  have dc: "\<And>c. c \<in> set (str_of_nat n) \<Longrightarrow> is_ascii_digit c"
    using str_of_nat_digits[of n] by (simp add: list_all_iff)
  have ac: "\<And>c. c \<in> set ?a \<Longrightarrow> \<not> is_netloc_delim c \<and> c \<noteq> 9 \<and> c \<noteq> 10 \<and> c \<noteq> 13 \<and> c \<noteq> 91 \<and> c \<noteq> 93"
  proof -
    fix c assume "c \<in> set ?a"
    then consider "c \<in> set h" | "c = 58" | "c \<in> set (str_of_nat n)" by auto
    then show "\<not> is_netloc_delim c \<and> c \<noteq> 9 \<and> c \<noteq> 10 \<and> c \<noteq> 13 \<and> c \<noteq> 91 \<and> c \<noteq> 93"
    proof cases
      case 1
      then show ?thesis using hc by simp
    next
      case 2
      then show ?thesis by (simp add: is_netloc_delim_def)
    next
      case 3
      then have "is_ascii_digit c" by (rule dc)
      then show ?thesis by (auto simp: is_ascii_digit_def is_netloc_delim_def)
    qed
  qed
  have pc: "\<And>c. c \<in> set pa \<Longrightarrow> c \<noteq> 9 \<and> c \<noteq> 10 \<and> c \<noteq> 13 \<and> c \<noteq> 35 \<and> c \<noteq> 59 \<and> c \<noteq> 63"
    using pa(2) by (auto simp: list_all_iff)
  have pa1: "pa = [] \<or> hd pa = 47" using pa(1) by auto
  have up: "urlparse ?u = Inr ?p"
    using sch ac pa1 pc by (rule urlparse_printed)
  have sw: "startswith ?u (str ''http://'') \<or> startswith ?u (str ''https://'')"
    using sch by (auto simp: startswith_def str_def)
  then have as: "add_scheme ?u = ?u" by (simp add: add_scheme_def)
  have ne: "?u \<noteq> []" using sch by (auto simp: str_def)
  have hd: "\<not> isspace (hd ?u)" using sch by (auto simp: str_def isspace_def)
  have lastd: "\<not> isspace (last (str_of_nat n))"
  proof -
    have "last (str_of_nat n) \<in> set (str_of_nat n)" using str_of_nat_nonempty by (rule last_in_set)
    then have "is_ascii_digit (last (str_of_nat n))" by (rule dc)
    then show ?thesis by (auto simp: is_ascii_digit_def isspace_def)
  qed
  have la: "\<not> isspace (last ?u)"
  proof (cases "pa = []")
    case True
    then show ?thesis using lastd str_of_nat_nonempty[of n] by simp
  next
    case False
    then show ?thesis using pa(1) by simp
  qed
  have st: "strip ?u = ?u" using ne hd la by (rule strip_id)
  have hi: "hostinfo ?a = (h, str_of_nat n)" using hc by (intro hostinfo_port) simp
  have hn: "hostname ?p = (if h = [] then None else Some (lower (before 37 h) @ dropWhile (\<lambda>c. c \<noteq> 37) h))"
    unfolding hostname_def parse_result.simps hi by (simp add: Let_def)
  have lo: "lower (case hostname ?p of None \<Rightarrow> [] | Some x \<Rightarrow> x) = lower h"
  proof (cases "h = []")
    case True
    then show ?thesis unfolding hn by (simp add: lower_def)
  next
    case False
    then show ?thesis unfolding hn by (simp only: if_False option.case lower_hostname_text)
  qed
  have len: "length (str_of_nat n) \<le> 4300"
  proof -
    have "n < 10 ^ 5" using n by simp
    then have "length (str_of_nat n) \<le> 5" by (rule str_of_nat_length) simp
    then show ?thesis by simp
  qed
  have po: "port ?p = Inr (Some n)"
    using str_of_nat_nonempty[of n] str_of_nat_digits[of n] len n
    by (simp add: port_def hi int_of_str_of_nat)
  have ls: "lower sch = sch" using sch by (auto simp: str_def lower_def lower_char_def)
  have e: "sch @ str ''://'' @ h @ 58 # str_of_nat n @ pa = ?u" by simp
  have "normalize_url ?u
       = Inr (sch @ str ''://'' @ lower h
              @ (if n = 0 \<or> n = 80 \<or> n = 443 then [] else 58 # str_of_nat n)
              @ (if rstrip_char 47 pa = [] then [47] else rstrip_char 47 pa))"
    unfolding normalize_url_def st as up sum.case Let_def po lo
    by (simp add: ls)
  then show ?thesis unfolding e .
qed

text \<open>
  C9 at the host \<open>Example.com\<close> with the path \<open>/a/\<close>: port 8080 is kept under both
  schemes; ports 80, 443 and 0 are dropped under either scheme.
\<close>

theorem normalize_url_port_witness:
  "list_all (\<lambda>c. is_ascii c \<and> c \<notin> {9, 10, 13, 35, 47, 58, 63, 64, 91, 93}) (str ''Example.com'')
   \<and> (8080::nat) \<le> 65535
   \<and> hd (str ''/a/'') = 47 \<and> \<not> isspace (last (str ''/a/''))
   \<and> list_all (\<lambda>c. c \<notin> {9, 10, 13, 35, 59, 63}) (str ''/a/'')
   \<and> normalize_url (str ''http://Example.com:8080/a/'') = Inr (str ''http://example.com:8080/a'')
   \<and> normalize_url (str ''https://Example.com:8080/a/'') = Inr (str ''https://example.com:8080/a'')
   \<and> normalize_url (str ''http://Example.com:80/a/'') = Inr (str ''http://example.com/a'')
   \<and> normalize_url (str ''http://Example.com:443/a/'') = Inr (str ''http://example.com/a'')
   \<and> normalize_url (str ''https://Example.com:80/a/'') = Inr (str ''https://example.com/a'')
   \<and> normalize_url (str ''https://Example.com:0/a/'') = Inr (str ''https://example.com/a'')"
proof -
  have h: "list_all (\<lambda>c. is_ascii c \<and> c \<notin> {9, 10, 13, 35, 47, 58, 63, 64, 91, 93}) (str ''Example.com'')"
    by (simp add: str_def is_ascii_def)
  have p: "str ''/a/'' = [] \<or> hd (str ''/a/'') = 47 \<and> \<not> isspace (last (str ''/a/''))"
    "list_all (\<lambda>c. c \<notin> {9, 10, 13, 35, 59, 63}) (str ''/a/'')"
    by (simp_all add: str_def isspace_def)
  have s: "str ''http'' = str ''http'' \<or> str ''http'' = str ''https''"
    "str ''https'' = str ''http'' \<or> str ''https'' = str ''https''" by simp_all
  have n: "(8080::nat) \<le> 65535" "(80::nat) \<le> 65535" "(443::nat) \<le> 65535" "(0::nat) \<le> 65535" by simp_all
  note t = normalize_url_port[OF s(1) h n(1) p] normalize_url_port[OF s(2) h n(1) p]
    normalize_url_port[OF s(1) h n(2) p] normalize_url_port[OF s(1) h n(3) p]
    normalize_url_port[OF s(2) h n(2) p] normalize_url_port[OF s(2) h n(4) p]
  have e: "str_of_nat 8080 = str ''8080''" "str_of_nat 80 = str ''80''" "str_of_nat 443 = str ''443''"
    "str_of_nat 0 = str ''0''"
    by (simp_all add: str_of_nat.simps str_def)
  have r: "rstrip_char 47 (str ''/a/'') = str ''/a''" "lower (str ''Example.com'') = str ''example.com''"
    by (simp_all add: rstrip_char_def lower_def lower_char_def str_def)
  show ?thesis using t h p unfolding e r by (simp add: str_def)
qed

end
